theory Spec2Isabelle
  imports Complex_Main "HOL-Library.AList" "HOL-Library.List_Lexorder" "HOL-Library.Char_ord"
begin

section \<open>Python values, dictionaries and exceptions\<close>

text \<open>
  The orchestration layer of \<^verbatim>\<open>simulation_lib/training.py\<close> moves result fragments
  around without computing on the metric values. A fragment is a Python \<^verbatim>\<open>dict\<close>; its
  values are either metric values (opaque, type \<open>'v\<close>) or nested dictionaries (the
  attribution table \<^verbatim>\<open>sv\<close>). Keys are integers (round numbers, worker slots), strings
  (metric names) or participant identifiers. The type \<open>'p\<close> of \<^verbatim>\<open>practitioner.id\<close> is
  defined outside this repository excerpt; \<^verbatim>\<open>sorted\<close> is applied to a set of them, so
  it is a linearly ordered type.
\<close>

datatype error = KeyError | AssertionError | AttributeError | TypeError | UpstreamError

datatype 'p key = KInt int | KStr string | KId 'p

datatype ('p, 'v) pyval = Num 'v | Dict "('p key \<times> ('p, 'v) pyval) list"

type_synonym ('p, 'v) dict = "('p key \<times> ('p, 'v) pyval) list"

text \<open>
  A \<^verbatim>\<open>dict\<close> is an association list in insertion order with pairwise distinct keys.
  \<^verbatim>\<open>d[k] = v\<close> keeps the position of a key already present and appends a new one,
  \<^verbatim>\<open>d[k]\<close> raises \<^verbatim>\<open>KeyError\<close> on a missing key, and \<^verbatim>\<open>d |= e\<close> stores the items
  of \<open>e\<close> one after the other.
\<close>

definition wf_dict :: "('k \<times> 'a) list \<Rightarrow> bool" where
  "wf_dict d = distinct (map fst d)"

definition dict_set :: "('k \<times> 'a) list \<Rightarrow> 'k \<Rightarrow> 'a \<Rightarrow> ('k \<times> 'a) list" where
  "dict_set d k v = AList.update k v d"

definition dict_get :: "('k \<times> 'a) list \<Rightarrow> 'k \<Rightarrow> error + 'a" where
  "dict_get d k = (case map_of d k of None \<Rightarrow> Inl KeyError | Some v \<Rightarrow> Inr v)"

definition dict_ior :: "('k \<times> 'a) list \<Rightarrow> ('k \<times> 'a) list \<Rightarrow> ('k \<times> 'a) list" where
  "dict_ior d e = fold (\<lambda>(k, v) acc. dict_set acc k v) e d"

text \<open>
  \<^verbatim>\<open>x[k]\<close> on a value: a dictionary is looked up, a metric value is not subscriptable.
  \<^verbatim>\<open>x.items()\<close> exists on a dictionary only.
\<close>

definition subscript :: "('p, 'v) pyval \<Rightarrow> 'p key \<Rightarrow> error + ('p, 'v) pyval" where
  "subscript x k = (case x of Num _ \<Rightarrow> Inl TypeError | Dict d \<Rightarrow> dict_get d k)"

definition items :: "('p, 'v) pyval \<Rightarrow> error + ('p, 'v) dict" where
  "items x = (case x of Num _ \<Rightarrow> Inl AttributeError | Dict d \<Rightarrow> Inr d)"

text \<open>\<^verbatim>\<open>range(n)\<close> is empty for \<open>n \<le> 0\<close>; \<^verbatim>\<open>sorted(s)\<close> of a set lists it in ascending order.\<close>

definition range_py :: "int \<Rightarrow> int list" where
  "range_py n = map int [0..<nat n]"

definition sorted_py :: "'p::linorder set \<Rightarrow> 'p list" where
  "sorted_py s = sorted_list_of_set s"

section \<open>The server runner\<close>

text \<open>
  Modelled from the spec: the server classes are not part of the excerpt. By section 6 a
  server constructor is a callable that, given the context, returns an object with a
  blocking \<^verbatim>\<open>start()\<close>, an \<^verbatim>\<open>algorithm\<close> that may or may not have the attribute
  \<^verbatim>\<open>shapley_values\<close>, and a \<^verbatim>\<open>performance_stat\<close>. A server is described by what
  \<^verbatim>\<open>start_server\<close> reads from it: whether \<^verbatim>\<open>start()\<close> raises, and the two attributes
  once it is over. \<open>shapley_values = None\<close> stands for an algorithm object without that
  attribute, and \<open>constructor = None\<close> for a server configuration without the key
  \<^verbatim>\<open>"constructor"\<close>.
\<close>

record ('p, 'v) algorithm =
  shapley_values :: "('p, 'v) pyval option"

record ('p, 'v) server =
  start :: "error option"
  algorithm :: "('p, 'v) algorithm"
  performance_stat :: "('p, 'v) pyval"

record ('x, 'p, 'v) server_config =
  constructor :: "('x \<Rightarrow> error + ('p, 'v) server) option"

text \<open>
  \<^verbatim>\<open>start_server\<close> builds the server, starts it and assembles the fragment: first
  \<^verbatim>\<open>"sv"\<close> if the algorithm has the attribute, then \<^verbatim>\<open>"performance"\<close>. An error of the
  constructor or of \<^verbatim>\<open>start()\<close> propagates. \<^verbatim>\<open>run_worker\<close> builds a worker, starts it
  and returns \<^verbatim>\<open>None\<close>; nothing below depends on more than its name.
\<close>

definition start_server ::
  "'x \<Rightarrow> ('x, 'p, 'v) server_config \<Rightarrow> error + ('p, 'v) dict" where
  "start_server context server_config =
     (case constructor server_config of
        None \<Rightarrow> Inl KeyError
      | Some ctor \<Rightarrow>
          (case ctor context of
             Inl e \<Rightarrow> Inl e
           | Inr server \<Rightarrow>
               (case start server of
                  Some e \<Rightarrow> Inl e
                | None \<Rightarrow>
                    (let res = [];
                         res = (case shapley_values (algorithm server) of
                                  Some sv \<Rightarrow> dict_set res (KStr ''sv'') sv
                                | None \<Rightarrow> res)
                     in Inr (dict_ior res [(KStr ''performance'', performance_stat server)])))))"

section \<open>Execution context, registries and trace\<close>

text \<open>
  Modelled from the spec: \<^verbatim>\<open>FederatedLearningContext\<close>, its executor pool and
  \<^verbatim>\<open>DistributedTrainingConfig\<close> are not part of the excerpt. By sections 4.1 and 6 a
  context owns an \<^verbatim>\<open>executor_pool\<close> with \<^verbatim>\<open>wait_results\<close> and \<^verbatim>\<open>shutdown\<close>, and a
  configuration has \<^verbatim>\<open>reset_session()\<close>, \<^verbatim>\<open>apply_global_config()\<close>, a \<^verbatim>\<open>log_file\<close>
  and a \<^verbatim>\<open>worker_number\<close>. A call of one of these methods is recorded, in order, in the
  \<open>trace\<close> of the state. An object that is not a \<^verbatim>\<open>FederatedLearningContext\<close> is
  \<open>OtherObject\<close>. The two registries \<^verbatim>\<open>tasks\<close> and \<^verbatim>\<open>task_results\<close> are the module's
  global dictionaries. Logging calls (\<^verbatim>\<open>log_debug\<close>, \<^verbatim>\<open>log_info\<close>) and the timer are
  left out: nothing reads them back.
\<close>

datatype pool = Pool nat

record fl_context =
  executor_pool :: pool

datatype pyobj = FederatedLearningContext fl_context | OtherObject

datatype runner = StartServer | RunWorker

datatype 'c kwargs = ServerConfig 'c | KwargsList "'c list"

datatype 'c event =
    ApplyGlobalConfig
  | AddFileHandler string
  | Submit fl_context "runner list" "'c kwargs"
  | WaitResults pool "real option"
  | Shutdown pool "bool option"

record config =
  worker_number :: int
  log_file :: string

record 'p practitioner =
  id_of :: 'p

record 'p task =
  process_pool :: pool
  practitioner_ids :: "'p set"
  task_config :: config

record ('p, 'v, 'c) state =
  tasks :: "int \<rightharpoonup> 'p task"
  task_results :: "int \<rightharpoonup> ('p, 'v) dict"
  trace :: "'c event list"

text \<open>
  Modelled from the spec: \<^verbatim>\<open>FederatedLearningContext.submit\<close> is not part of the
  excerpt. By section 4.1 it schedules each callable on the shared pool and returns at
  once; the model records the call. \<open>invocations\<close> reads a recorded call as the list of
  scheduled invocations: with \<^verbatim>\<open>kwargs_list\<close> the i-th callable runs with the i-th
  entry, with shared keyword arguments every callable gets the same ones.
\<close>

definition submit ::
  "fl_context \<Rightarrow> runner list \<Rightarrow> 'c kwargs \<Rightarrow> ('p, 'v, 'c) state \<Rightarrow> ('p, 'v, 'c) state" where
  "submit c funs kw st = st\<lparr>trace := trace st @ [Submit c funs kw]\<rparr>"

fun invocations :: "'c event \<Rightarrow> (runner \<times> 'c) list" where
  "invocations (Submit c funs (KwargsList ks)) = zip funs ks"
| "invocations (Submit c funs (ServerConfig sc)) = map (\<lambda>f. (f, sc)) funs"
| "invocations _ = []"

section \<open>The worker group launcher\<close>

text \<open>
  \<^verbatim>\<open>start_workers\<close> checks its two assertions, appends \<^verbatim>\<open>run_worker\<close> to
  \<^verbatim>\<open>worker_funs\<close> once per configuration and submits the whole list in one call, with
  \<^verbatim>\<open>kwargs_list=worker_configs\<close>. The list \<^verbatim>\<open>worker_kwargs\<close> that the loop also fills
  is not passed on and is left out. A failed assertion leaves the state as it was.
\<close>

definition start_workers ::
  "pyobj \<Rightarrow> 'c list \<Rightarrow> ('p, 'v, 'c) state \<Rightarrow> (error + unit) \<times> ('p, 'v, 'c) state" where
  "start_workers context worker_configs st =
     (case context of
        OtherObject \<Rightarrow> (Inl AssertionError, st)
      | FederatedLearningContext c \<Rightarrow>
          if worker_configs = [] then (Inl AssertionError, st)
          else
            (let worker_funs = map (\<lambda>worker_config. RunWorker) worker_configs
             in (Inr (), submit c worker_funs (KwargsList worker_configs) st)))"

section \<open>The training entry point\<close>

text \<open>
  What \<^verbatim>\<open>train\<close> obtains from its collaborators is collected in an environment:
  the value of \<^verbatim>\<open>uuid.uuid4().int\<close> drawn by this call, \<^verbatim>\<open>os.getpid()\<close>, the effect of
  \<^verbatim>\<open>config.reset_session()\<close> on the copied configuration, and \<^verbatim>\<open>get_worker_config\<close>.
  \<^verbatim>\<open>get_worker_config\<close> is defined in \<^verbatim>\<open>algorithm_factory\<close>, outside the excerpt, and
  is a parameter here. The mapping it returns is read at three keys; an entry is
  \<open>None\<close> when the key is missing (for \<^verbatim>\<open>"server"\<close> also when it holds \<^verbatim>\<open>None\<close>).
  Section 6 of the specification says that the mapping has all three: a context, a
  server configuration and a sequence of batches of worker configurations.
\<close>

record 'c worker_config =
  context_entry :: "pyobj option"
  server_entry :: "'c option"
  worker_entry :: "'c list list option"

record ('p, 'c) env =
  uuid4_int :: int
  getpid :: int
  reset_session :: "config \<Rightarrow> config"
  get_worker_config ::
    "config \<Rightarrow> int option \<Rightarrow> 'p practitioner set option \<Rightarrow> 'c worker_config"

text \<open>
  The loop of \<^verbatim>\<open>train\<close> over the worker batches stops at the first batch whose launch
  raises; the submissions made before stay recorded. In \<^verbatim>\<open>train\<close> itself every step
  that can raise (\<^verbatim>\<open>pop("context")\<close>, the two assertions, \<^verbatim>\<open>worker_config["worker"]\<close>,
  the launches) is a branch returning the error with the state reached so far.
  \<open>task_id\<close> is \<open>Some\<close> exactly when participants are given, so the last case
  distinction is the test \<^verbatim>\<open>practitioners is not None\<close>. \<^verbatim>\<open>copy.deepcopy\<close> is the
  identity on values.
\<close>

fun start_all_workers ::
  "pyobj \<Rightarrow> 'c list list \<Rightarrow> ('p, 'v, 'c) state \<Rightarrow> (error + unit) \<times> ('p, 'v, 'c) state" where
  "start_all_workers context [] st = (Inr (), st)"
| "start_all_workers context (worker_configs # rest) st =
     (case start_workers context worker_configs st of
        (Inl e, st') \<Rightarrow> (Inl e, st')
      | (Inr _, st') \<Rightarrow> start_all_workers context rest st')"

definition train ::
  "('p, 'c) env \<Rightarrow> config \<Rightarrow> 'p practitioner set option \<Rightarrow> ('p, 'v, 'c) state
     \<Rightarrow> (error + int option) \<times> ('p, 'v, 'c) state" where
  "train env config0 practitioners st =
     (let cfg = reset_session env config0;
          st = st\<lparr>trace := trace st @ [ApplyGlobalConfig]\<rparr>;
          task_id = None;
          st = (if practitioners = None
                then st\<lparr>trace := trace st @ [AddFileHandler (log_file cfg)]\<rparr> else st);
          task_id = (if practitioners = None then task_id
                     else Some (uuid4_int env + getpid env));
          worker_config = get_worker_config env cfg task_id practitioners
      in case context_entry worker_config of
           None \<Rightarrow> (Inl KeyError, st)
         | Some OtherObject \<Rightarrow> (Inl AssertionError, st)
         | Some (FederatedLearningContext c) \<Rightarrow>
             (case server_entry worker_config of
                None \<Rightarrow> (Inl AssertionError, st)
              | Some server_config \<Rightarrow>
                  (let st = submit c [StartServer] (ServerConfig server_config) st
                   in case worker_entry worker_config of
                        None \<Rightarrow> (Inl KeyError, st)
                      | Some batches \<Rightarrow>
                          (case start_all_workers (FederatedLearningContext c) batches st of
                             (Inl e, st) \<Rightarrow> (Inl e, st)
                           | (Inr _, st) \<Rightarrow>
                               (case (practitioners, task_id) of
                                  (Some prs, Some tid) \<Rightarrow>
                                    (Inr (Some tid),
                                     st\<lparr>tasks := (tasks st)(tid \<mapsto>
                                            \<lparr>process_pool = executor_pool c,
                                             practitioner_ids = id_of ` prs,
                                             task_config = cfg\<rparr>),
                                        task_results := (task_results st)(tid \<mapsto> [])\<rparr>)
                                | _ \<Rightarrow>
                                    (Inr None,
                                     st\<lparr>trace := trace st @
                                          [WaitResults (executor_pool c) None,
                                           Shutdown (executor_pool c) (Some True)]\<rparr>))))))"

section \<open>The result collector\<close>

text \<open>
  \<^verbatim>\<open>process_pool.wait_results(timeout)\<close> answers with the results gathered so far (a
  dictionary whose values are \<^verbatim>\<open>None\<close> for a worker runner and a fragment for the server
  runner) and with \<^verbatim>\<open>not_done\<close>, read for its truth value only. The answer is an
  argument of the model of \<^verbatim>\<open>get_training_result\<close>.

  The four loops of \<^verbatim>\<open>get_training_result\<close> are four recursive functions:
  \<open>merge_results\<close> (over \<^verbatim>\<open>results.values()\<close>), \<open>post_process\<close> (over the items of
  the accumulated fragment), \<open>remap_rounds\<close> (over the rounds of the \<^verbatim>\<open>sv\<close> table) and
  \<open>remap_pairs\<close> (over \<^verbatim>\<open>zip(sorted(practitioner_ids), range(config.worker_number))\<close>).
  \<open>merge_results\<close> can only fail at \<^verbatim>\<open>task_results[task_id]\<close>, before it has written
  anything, so on its error the registry is the one on entry. The dictionaries \<^verbatim>\<open>stats\<close>
  and \<^verbatim>\<open>sv_dict\<close> are local: an error in the post-processing discards them.
  \<^verbatim>\<open>practitioner_ids\<close> is a set, so the assertion that it is not \<^verbatim>\<open>None\<close> holds.
\<close>

record ('p, 'v) wait_reply =
  results :: "(nat \<times> ('p, 'v) dict option) list"
  not_done :: bool

fun merge_results ::
  "('p, 'v) dict option list \<Rightarrow> int \<Rightarrow> (int \<rightharpoonup> ('p, 'v) dict) \<Rightarrow> error + (int \<rightharpoonup> ('p, 'v) dict)" where
  "merge_results [] task_id tr = Inr tr"
| "merge_results (None # rest) task_id tr = merge_results rest task_id tr"
| "merge_results (Some result # rest) task_id tr =
     (case tr task_id of
        None \<Rightarrow> Inl KeyError
      | Some acc \<Rightarrow> merge_results rest task_id (tr(task_id \<mapsto> dict_ior acc result)))"

fun remap_pairs ::
  "('p \<times> int) list \<Rightarrow> ('p, 'v) pyval \<Rightarrow> ('p, 'v) dict \<Rightarrow> error + ('p, 'v) dict" where
  "remap_pairs [] tmp_sv_dict d = Inr d"
| "remap_pairs ((practitioner_id, worker_id) # rest) tmp_sv_dict d =
     (case subscript tmp_sv_dict (KInt worker_id) of
        Inl e \<Rightarrow> Inl e
      | Inr x \<Rightarrow> remap_pairs rest tmp_sv_dict (dict_set d (KId practitioner_id) x))"

fun remap_rounds ::
  "('p, 'v) dict \<Rightarrow> ('p \<times> int) list \<Rightarrow> ('p, 'v) dict \<Rightarrow> error + ('p, 'v) dict" where
  "remap_rounds [] pairs sv_dict = Inr sv_dict"
| "remap_rounds ((round_number, tmp_sv_dict) # rest) pairs sv_dict =
     (case remap_pairs pairs tmp_sv_dict [] of
        Inl e \<Rightarrow> Inl e
      | Inr inner \<Rightarrow> remap_rounds rest pairs (dict_set sv_dict round_number (Dict inner)))"

fun post_process ::
  "('p, 'v) dict \<Rightarrow> ('p \<times> int) list \<Rightarrow> ('p, 'v) dict \<Rightarrow> error + ('p, 'v) dict" where
  "post_process [] pairs stats = Inr stats"
| "post_process ((k, v) # rest) pairs stats =
     (if k \<noteq> KStr ''sv'' then post_process rest pairs (dict_set stats k v)
      else
        (case items v of
           Inl e \<Rightarrow> Inl e
         | Inr rounds \<Rightarrow>
             (case remap_rounds rounds pairs [] of
                Inl e \<Rightarrow> Inl e
              | Inr sv_dict \<Rightarrow> post_process rest pairs (dict_set stats k (Dict sv_dict)))))"

definition get_training_result ::
  "('p::linorder, 'v) wait_reply \<Rightarrow> int \<Rightarrow> real option \<Rightarrow> ('p, 'v, 'c) state
     \<Rightarrow> (error + ('p, 'v) dict option) \<times> ('p, 'v, 'c) state" where
  "get_training_result reply task_id timeout st =
     (case tasks st task_id of
        None \<Rightarrow> (Inl KeyError, st)
      | Some task \<Rightarrow>
          (let st = st\<lparr>trace := trace st @ [WaitResults (process_pool task) timeout]\<rparr>
           in case merge_results (map snd (results reply)) task_id (task_results st) of
                Inl e \<Rightarrow> (Inl e, st)
              | Inr tr \<Rightarrow>
                  (let st = st\<lparr>task_results := tr\<rparr>
                   in if not_done reply then (Inr None, st)
                      else
                        (let st = st\<lparr>trace := trace st @ [Shutdown (process_pool task) None]\<rparr>;
                             st = st\<lparr>tasks := (tasks st)(task_id := None)\<rparr>;
                             pairs = zip (sorted_py (practitioner_ids task))
                                         (range_py (worker_number (task_config task)))
                         in case task_results st task_id of
                              None \<Rightarrow> (Inl KeyError, st)
                            | Some acc \<Rightarrow>
                                (case post_process acc pairs [] of
                                   Inl e \<Rightarrow> (Inl e, st)
                                 | Inr stats \<Rightarrow>
                                     (Inr (Some stats),
                                      st\<lparr>task_results := (task_results st)(task_id := None)\<rparr>))))))"


section \<open>Notions used in the statements\<close>

text \<open>
  \<open>non_null\<close> lists the fragments among the results of a poll, in order, and
  \<open>last_writer k fragments\<close> is the last fragment of a list that has the key \<open>k\<close>.
  \<open>subscript2 x k1 k2\<close> is \<^verbatim>\<open>x[k1][k2]\<close>. The two predicates on events tell which
  runner a recorded submission schedules, and \<open>worker_batch\<close> is the one submission that
  \<^verbatim>\<open>start_workers\<close> makes for a list of worker configurations.
\<close>

fun non_null :: "'a option list \<Rightarrow> 'a list" where
  "non_null [] = []"
| "non_null (None # rest) = non_null rest"
| "non_null (Some x # rest) = x # non_null rest"

definition subscript2 :: "('p, 'v) pyval \<Rightarrow> 'p key \<Rightarrow> 'p key \<Rightarrow> error + ('p, 'v) pyval" where
  "subscript2 x k1 k2 = (case subscript x k1 of Inl e \<Rightarrow> Inl e | Inr y \<Rightarrow> subscript y k2)"

fun is_server_submission :: "'c event \<Rightarrow> bool" where
  "is_server_submission (Submit c funs kw) = (StartServer \<in> set funs)"
| "is_server_submission _ = False"

fun is_worker_submission :: "'c event \<Rightarrow> bool" where
  "is_worker_submission (Submit c funs kw) = (RunWorker \<in> set funs)"
| "is_worker_submission _ = False"

definition last_writer :: "'k \<Rightarrow> ('k \<times> 'a) list list \<Rightarrow> ('k \<times> 'a) list option" where
  "last_writer k fragments = find (\<lambda>f. k \<in> fst ` set f) (rev fragments)"

definition worker_batch :: "fl_context \<Rightarrow> 'c list \<Rightarrow> 'c event" where
  "worker_batch c worker_configs =
     Submit c (map (\<lambda>worker_config. RunWorker) worker_configs) (KwargsList worker_configs)"

text \<open>
  \<open>attribution_table n v\<close> holds when \<open>v\<close> is a nested dictionary in which every round
  has a value for every worker slot \<open>0..n-1\<close>. The post-processing raises no error on
  such a table.
\<close>

definition attribution_table :: "int \<Rightarrow> ('p, 'v) pyval \<Rightarrow> bool" where
  "attribution_table n v =
     (case v of
        Num _ \<Rightarrow> False
      | Dict rounds \<Rightarrow>
          list_all (\<lambda>(round_number, tmp_sv_dict).
            list_all (\<lambda>slot. case subscript tmp_sv_dict (KInt slot) of
                                Inl _ \<Rightarrow> False | Inr _ \<Rightarrow> True) (range_py n)) rounds)"

text \<open>
  Modelled from the spec: \<^verbatim>\<open>get_worker_config\<close> is defined in \<^verbatim>\<open>algorithm_factory\<close>,
  outside the excerpt. By section 6 it returns a mapping with the keys \<^verbatim>\<open>"context"\<close>
  (an execution context), \<^verbatim>\<open>"server"\<close> (a server configuration) and \<^verbatim>\<open>"worker"\<close> (a
  sequence of batches of worker configurations); by sections 3 and 4.4 a batch is a
  non-empty list of worker configurations. \<open>specified_worker_config wc\<close> holds when
  \<open>wc\<close> is such a mapping.
\<close>

definition specified_worker_config :: "'c worker_config \<Rightarrow> bool" where
  "specified_worker_config wc =
     (case context_entry wc of
        Some (FederatedLearningContext c) \<Rightarrow>
          (case server_entry wc of
             Some sc \<Rightarrow>
               (case worker_entry wc of
                  Some batches \<Rightarrow> [] \<notin> set batches
                | None \<Rightarrow> False)
           | None \<Rightarrow> False)
      | _ \<Rightarrow> False)"

section \<open>Scenarios\<close>

text \<open>
  The end-to-end scenario of the specification: participants p3, p1 and p2, three worker
  slots, one server fragment; further a poll that is not complete yet, a fragment whose
  table lacks slot 2, a fragment whose second round has values for the slots 0 and 2 only,
  and a task whose \<^verbatim>\<open>worker_number\<close> is 2 for three participants.
\<close>

definition example_task :: "string task" where
  "example_task = \<lparr>process_pool = Pool 0, practitioner_ids = {''p3'', ''p1'', ''p2''},
     task_config = \<lparr>worker_number = 3, log_file = ''log''\<rparr>\<rparr>"

definition example_sv :: "(string, real) dict" where
  "example_sv = [(KInt 0, Dict [(KInt 0, Num 0.1), (KInt 1, Num 0.2), (KInt 2, Num 0.3)])]"

definition example_fragment :: "(string, real) dict" where
  "example_fragment = [(KStr ''performance'', Num 0.9), (KStr ''sv'', Dict example_sv)]"

definition example_stats :: "(string, real) dict" where
  "example_stats =
     [(KStr ''performance'', Num 0.9),
      (KStr ''sv'', Dict [(KInt 0, Dict [(KId ''p1'', Num 0.1), (KId ''p2'', Num 0.2), (KId ''p3'', Num 0.3)])])]"

definition example_state :: "(string, real, string) state" where
  "example_state = \<lparr>tasks = [7 \<mapsto> example_task], task_results = [7 \<mapsto> []], trace = []\<rparr>"

definition example_reply :: "(string, real) wait_reply" where
  "example_reply = \<lparr>results = [(0, Some example_fragment), (1, None), (2, None), (3, None)],
     not_done = False\<rparr>"

definition pending_reply :: "(string, real) wait_reply" where
  "pending_reply = \<lparr>results = [(1, None)], not_done = True\<rparr>"

definition short_sv :: "(string, real) dict" where
  "short_sv = [(KInt 0, Dict [(KInt 0, Num 0.1), (KInt 1, Num 0.2)])]"

definition short_fragment :: "(string, real) dict" where
  "short_fragment = [(KStr ''performance'', Num 0.9), (KStr ''sv'', Dict short_sv)]"

definition short_reply :: "(string, real) wait_reply" where
  "short_reply = \<lparr>results = [(0, Some short_fragment), (1, None)], not_done = False\<rparr>"

definition partial_sv :: "(string, real) dict" where
  "partial_sv =
     [(KInt 0, Dict [(KInt 0, Num 0.1), (KInt 1, Num 0.2), (KInt 2, Num 0.3)]),
      (KInt 1, Dict [(KInt 0, Num 0.4), (KInt 2, Num 0.5)])]"

definition partial_fragment :: "(string, real) dict" where
  "partial_fragment = [(KStr ''performance'', Num 0.9), (KStr ''sv'', Dict partial_sv)]"

definition partial_reply :: "(string, real) wait_reply" where
  "partial_reply = \<lparr>results = [(0, Some partial_fragment), (1, None)], not_done = False\<rparr>"

definition mismatch_task :: "string task" where
  "mismatch_task = \<lparr>process_pool = Pool 0, practitioner_ids = {''p3'', ''p1'', ''p2''},
     task_config = \<lparr>worker_number = 2, log_file = ''log''\<rparr>\<rparr>"

definition mismatch_state :: "(string, real, string) state" where
  "mismatch_state = \<lparr>tasks = [7 \<mapsto> mismatch_task], task_results = [7 \<mapsto> []], trace = []\<rparr>"

definition idle_state :: "(string, real, string) state" where
  "idle_state = \<lparr>tasks = Map.empty, task_results = Map.empty, trace = []\<rparr>"

text \<open>
  An accumulator and two fragments with a common key, for the merge; a derived worker
  configuration with one server configuration and two worker batches, the environment of
  a \<^verbatim>\<open>train\<close> call that draws the random value \<open>u\<close> in process 4242, and servers
  with and without an attribution table.
\<close>

definition fragment_x :: "(string, real) dict" where
  "fragment_x = [(KStr ''x'', Num 1)]"

definition fragment_a :: "(string, real) dict" where
  "fragment_a = [(KStr ''a'', Num 1)]"

definition fragment_ab :: "(string, real) dict" where
  "fragment_ab = [(KStr ''a'', Num 2), (KStr ''b'', Num 3)]"

definition example_context :: fl_context where
  "example_context = \<lparr>executor_pool = Pool 0\<rparr>"

definition example_worker_config :: "string worker_config" where
  "example_worker_config =
     \<lparr>context_entry = Some (FederatedLearningContext example_context),
      server_entry = Some ''server'',
      worker_entry = Some [[''w0'', ''w1''], [''w2'']]\<rparr>"

definition example_env :: "int \<Rightarrow> (string, string) env" where
  "example_env u =
     \<lparr>uuid4_int = u, getpid = 4242, reset_session = (\<lambda>cfg. cfg),
      get_worker_config = (\<lambda>cfg task_id practitioners. example_worker_config)\<rparr>"

definition example_config :: config where
  "example_config = \<lparr>worker_number = 3, log_file = ''log''\<rparr>"

definition example_practitioners :: "string practitioner set" where
  "example_practitioners = {\<lparr>id_of = ''p3''\<rparr>, \<lparr>id_of = ''p1''\<rparr>, \<lparr>id_of = ''p2''\<rparr>}"

definition example_calls ::
  "((string, string) env \<times> config \<times> string practitioner set \<times> (string, real, string) state) list" where
  "example_calls =
     [(example_env 10, example_config, example_practitioners, idle_state),
      (example_env 11, example_config, example_practitioners, idle_state),
      (example_env 12, example_config, example_practitioners, idle_state)]"

definition example_server :: "bool \<Rightarrow> (string, real) server" where
  "example_server with_sv =
     \<lparr>start = None,
      algorithm = \<lparr>shapley_values = (if with_sv then Some (Dict example_sv) else None)\<rparr>,
      performance_stat = Num 0.9\<rparr>"

definition example_server_config :: "bool \<Rightarrow> (fl_context, string, real) server_config" where
  "example_server_config with_sv = \<lparr>constructor = Some (\<lambda>context. Inr (example_server with_sv))\<rparr>"

definition fragment_with_sv :: "(string, real) dict" where
  "fragment_with_sv = [(KStr ''sv'', Dict example_sv), (KStr ''performance'', Num 0.9)]"

definition fragment_without_sv :: "(string, real) dict" where
  "fragment_without_sv = [(KStr ''performance'', Num 0.9)]"

section \<open>Properties of the dictionary operations\<close>

lemma map_of_dict_set: "map_of (dict_set d k v) = (map_of d)(k \<mapsto> v)"
  by (simp add: dict_set_def update_conv')

lemma dict_set_fresh: "k \<notin> fst ` set d \<Longrightarrow> dict_set d k v = d @ [(k, v)]"
  by (induction d) (auto simp: dict_set_def)

lemma wf_dict_set: "wf_dict d \<Longrightarrow> wf_dict (dict_set d k v)"
  by (simp add: wf_dict_def dict_set_def distinct_update)

lemma wf_dict_ior: "wf_dict d \<Longrightarrow> wf_dict (dict_ior d e)"
  unfolding dict_ior_def
  by (induction e arbitrary: d) (auto simp: wf_dict_set)

lemma wf_foldl_ior: "wf_dict d \<Longrightarrow> wf_dict (foldl dict_ior d fs)"
  by (induction fs arbitrary: d) (simp_all add: wf_dict_ior)

lemma map_of_dict_ior_rev: "map_of (dict_ior d e) = map_of d ++ map_of (rev e)"
  unfolding dict_ior_def
proof (induction e arbitrary: d)
  case Nil
  show ?case by simp
next
  case (Cons x e)
  obtain k v where x: "x = (k, v)" by (cases x)
  show ?case
    by (simp add: x Cons.IH map_of_dict_set map_add_def fun_eq_iff split: option.splits)
qed

lemma map_of_rev_distinct: "distinct (map fst e) \<Longrightarrow> map_of (rev e) = map_of e"
  by (rule map_of_inject_set[THEN iffD2]) (simp_all add: rev_map[symmetric])

lemma map_of_dict_ior: "wf_dict e \<Longrightarrow> map_of (dict_ior d e) = map_of d ++ map_of e"
  by (simp add: map_of_dict_ior_rev map_of_rev_distinct wf_dict_def)

lemma dict_get_ior:
  assumes "wf_dict e"
  shows "dict_get (dict_ior d e) k = (if k \<in> fst ` set e then dict_get e k else dict_get d k)"
proof (cases "map_of e k")
  case None
  then have "k \<notin> fst ` set e" by (simp add: map_of_eq_None_iff)
  with None assms show ?thesis by (simp add: dict_get_def map_of_dict_ior map_add_def)
next
  case (Some v)
  then have "k \<in> fst ` set e" by (metis map_of_eq_None_iff option.distinct(1))
  with Some assms show ?thesis by (simp add: dict_get_def map_of_dict_ior map_add_def)
qed

lemma keys_dict_ior: "fst ` set (dict_ior d e) = fst ` set d \<union> fst ` set e"
  unfolding dict_ior_def
proof (induction e arbitrary: d)
  case Nil
  show ?case by simp
next
  case (Cons x e)
  obtain k v where x: "x = (k, v)" by (cases x)
  show ?case
    by (simp add: x Cons.IH) (auto simp: dict_set_def dom_update)
qed

lemma keys_foldl_ior:
  "fst ` set (foldl dict_ior d fs) = fst ` set d \<union> (\<Union>f \<in> set fs. fst ` set f)"
  by (induction fs arbitrary: d) (auto simp: keys_dict_ior)

lemma dict_get_foldl_ior:
  assumes "\<forall>f \<in> set fs. wf_dict f"
  shows "dict_get (foldl dict_ior d fs) k =
           (case last_writer k fs of None \<Rightarrow> dict_get d k | Some f \<Rightarrow> dict_get f k)"
  using assms
proof (induction fs rule: rev_induct)
  case Nil
  show ?case by (simp add: last_writer_def)
next
  case (snoc f fs)
  then have wf: "wf_dict f" and IH: "dict_get (foldl dict_ior d fs) k =
      (case last_writer k fs of None \<Rightarrow> dict_get d k | Some f \<Rightarrow> dict_get f k)"
    by simp_all
  show ?case
    using IH by (simp add: dict_get_ior[OF wf] last_writer_def)
qed

lemma dict_get_set: "dict_get (dict_set d k v) k' = (if k' = k then Inr v else dict_get d k')"
  by (simp add: dict_get_def map_of_dict_set)

lemma dict_get_unique:
  "wf_dict d \<Longrightarrow> dict_get d k = Inr v \<Longrightarrow> (k, v') \<in> set d \<Longrightarrow> v' = v"
  by (auto simp: wf_dict_def dict_get_def split: option.splits)

lemma dict_get_mem: "dict_get d k = Inr v \<Longrightarrow> (k, v) \<in> set d"
  by (auto simp: dict_get_def split: option.splits dest: map_of_SomeD)

section \<open>The loops of the result collector\<close>

subsection \<open>Pairing sorted identifiers with worker slots\<close>

lemma pairs_nth:
  "i < length xs \<Longrightarrow> int i < n \<Longrightarrow> (xs ! i, int i) \<in> set (zip xs (range_py n))"
  by (auto simp: set_zip range_py_def intro!: exI[of _ i])

lemma pairs_fst: "map fst (zip xs (range_py n)) = take (nat n) xs"
  by (auto simp: map_fst_zip_take range_py_def min_def)

lemma pairs_snd: "snd ` set (zip xs (range_py n)) = int ` {..<min (length xs) (nat n)}"
  by (force simp: set_zip range_py_def image_iff)

lemma pairs_distinct: "distinct xs \<Longrightarrow> distinct (map fst (zip xs (range_py n)))"
  by (simp add: pairs_fst)

lemma sorted_py_props:
  "length (sorted_py s) = card s" "distinct (sorted_py s)" "finite s \<Longrightarrow> set (sorted_py s) = s"
  by (simp_all add: sorted_py_def)

text \<open>
  The position of an identifier in the sorted list is its rank: the number of identifiers
  of the set below it.
\<close>

lemma strict_sorted_below_nth:
  fixes xs :: "'a::linorder list"
  assumes "sorted_wrt (<) xs" and "i < length xs"
  shows "{q \<in> set xs. q < xs ! i} = set (take i xs)"
proof (intro set_eqI iffI)
  fix q
  assume "q \<in> {q \<in> set xs. q < xs ! i}"
  then obtain j where j: "j < length xs" "xs ! j = q" and lt: "q < xs ! i"
    by (auto simp: in_set_conv_nth)
  have "j < i"
  proof (rule ccontr)
    assume "\<not> j < i"
    then have "i = j \<or> i < j" by auto
    then have "xs ! i \<le> xs ! j"
      using assms(1) j(1) by (auto simp: sorted_wrt_iff_nth_less less_imp_le)
    with lt j(2) show False by simp
  qed
  with j show "q \<in> set (take i xs)"
    by (auto simp: in_set_conv_nth intro!: exI[of _ j])
next
  fix q
  assume "q \<in> set (take i xs)"
  then obtain j where "j < i" "j < length xs" "xs ! j = q"
    by (auto simp: in_set_conv_nth)
  with assms show "q \<in> {q \<in> set xs. q < xs ! i}"
    by (auto simp: sorted_wrt_iff_nth_less)
qed

lemma sorted_py_rank:
  fixes s :: "'p::linorder set"
  assumes fin: "finite s" and mem: "pid \<in> s"
  shows "card {q \<in> s. q < pid} < card s \<and> sorted_py s ! card {q \<in> s. q < pid} = pid"
proof -
  let ?xs = "sorted_py s"
  have elems: "set ?xs = s" and len: "length ?xs = card s" and dist: "distinct ?xs"
    using fin by (simp_all add: sorted_py_props)
  have sorted: "sorted_wrt (<) ?xs"
    by (simp add: sorted_py_def)
  from mem elems have "pid \<in> set ?xs" by simp
  then obtain i where i: "i < length ?xs" "?xs ! i = pid"
    unfolding in_set_conv_nth by blast
  have "{q \<in> s. q < pid} = set (take i ?xs)"
    using strict_sorted_below_nth[OF sorted i(1)] by (simp add: elems i(2))
  moreover have "card (set (take i ?xs)) = i"
    using dist i(1) by (simp add: distinct_card)
  ultimately have "card {q \<in> s. q < pid} = i" by simp
  with i len show ?thesis by simp
qed

subsection \<open>The loop over the pairs of one round\<close>

lemma remap_pairs_other:
  "remap_pairs ps tmp d = Inr d' \<Longrightarrow> k \<notin> KId ` fst ` set ps \<Longrightarrow> map_of d' k = map_of d k"
proof (induction ps arbitrary: d)
  case Nil
  then show ?case by simp
next
  case (Cons a ps)
  obtain p w where a: "a = (p, w)" by (cases a)
  from Cons.prems obtain x where x: "subscript tmp (KInt w) = Inr x"
    and r: "remap_pairs ps tmp (dict_set d (KId p) x) = Inr d'"
    by (auto simp: a split: sum.splits)
  from Cons.prems(2) have "k \<noteq> KId p" "k \<notin> KId ` fst ` set ps" by (auto simp: a)
  with Cons.IH[OF r] show ?case by (simp add: map_of_dict_set)
qed

lemma remap_pairs_lookup:
  "remap_pairs ps tmp d = Inr d' \<Longrightarrow> distinct (map fst ps) \<Longrightarrow> (p, w) \<in> set ps \<Longrightarrow>
     \<exists>x. subscript tmp (KInt w) = Inr x \<and> map_of d' (KId p) = Some x"
proof (induction ps arbitrary: d)
  case Nil
  then show ?case by simp
next
  case (Cons a ps)
  obtain q u where a: "a = (q, u)" by (cases a)
  from Cons.prems(1) obtain y where y: "subscript tmp (KInt u) = Inr y"
    and r: "remap_pairs ps tmp (dict_set d (KId q) y) = Inr d'"
    by (auto simp: a split: sum.splits)
  from Cons.prems(2) have dist: "distinct (map fst ps)" and q: "q \<notin> fst ` set ps"
    by (auto simp: a)
  show ?case
  proof (cases "(p, w) = (q, u)")
    case True
    from q have "KId q \<notin> KId ` fst ` set ps" by auto
    from remap_pairs_other[OF r this] have "map_of d' (KId q) = Some y"
      by (simp add: map_of_dict_set)
    with True y show ?thesis by simp
  next
    case False
    with Cons.prems(3) have "(p, w) \<in> set ps" by (auto simp: a)
    from Cons.IH[OF r dist this] show ?thesis .
  qed
qed

lemma remap_pairs_keys:
  "remap_pairs ps tmp d = Inr d' \<Longrightarrow> distinct (map fst ps) \<Longrightarrow>
     KId ` fst ` set ps \<inter> fst ` set d = {} \<Longrightarrow>
     map fst d' = map fst d @ map (\<lambda>(p, w). KId p) ps"
proof (induction ps arbitrary: d)
  case Nil
  then show ?case by simp
next
  case (Cons a ps)
  obtain q u where a: "a = (q, u)" by (cases a)
  from Cons.prems(1) obtain y where y: "subscript tmp (KInt u) = Inr y"
    and r: "remap_pairs ps tmp (dict_set d (KId q) y) = Inr d'"
    by (auto simp: a split: sum.splits)
  from Cons.prems(2) have dist: "distinct (map fst ps)" and q: "q \<notin> fst ` set ps"
    by (auto simp: a)
  from Cons.prems(3) have fresh: "KId q \<notin> fst ` set d" by (auto simp: a)
  then have ds: "dict_set d (KId q) y = d @ [(KId q, y)]" by (rule dict_set_fresh)
  have "KId ` fst ` set ps \<inter> fst ` set (dict_set d (KId q) y) = {}"
    using Cons.prems(3) q by (auto simp: ds a)
  from Cons.IH[OF r dist this] show ?case by (simp add: ds a)
qed

lemma remap_pairs_succeeds:
  "\<forall>w \<in> snd ` set ps. \<exists>x. subscript tmp (KInt w) = Inr x \<Longrightarrow> \<exists>d'. remap_pairs ps tmp d = Inr d'"
proof (induction ps arbitrary: d)
  case Nil
  show ?case by simp
next
  case (Cons a ps)
  obtain q u where a: "a = (q, u)" by (cases a)
  from Cons.prems obtain y where y: "subscript tmp (KInt u) = Inr y" by (auto simp: a)
  from Cons.prems have "\<forall>w \<in> snd ` set ps. \<exists>x. subscript tmp (KInt w) = Inr x" by simp
  from Cons.IH[OF this] show ?case by (simp add: a y)
qed

subsection \<open>The loop over the rounds\<close>

lemma remap_rounds_other:
  "remap_rounds rs ps sv = Inr sv' \<Longrightarrow> r \<notin> fst ` set rs \<Longrightarrow> map_of sv' r = map_of sv r"
proof (induction rs arbitrary: sv)
  case Nil
  then show ?case by simp
next
  case (Cons a rs)
  obtain r0 tmp where a: "a = (r0, tmp)" by (cases a)
  from Cons.prems(1) obtain inner where "remap_pairs ps tmp [] = Inr inner"
    and r: "remap_rounds rs ps (dict_set sv r0 (Dict inner)) = Inr sv'"
    by (auto simp: a split: sum.splits)
  from Cons.prems(2) have "r \<noteq> r0" "r \<notin> fst ` set rs" by (auto simp: a)
  with Cons.IH[OF r] show ?case by (simp add: map_of_dict_set)
qed

lemma remap_rounds_lookup:
  "remap_rounds rs ps sv = Inr sv' \<Longrightarrow> wf_dict rs \<Longrightarrow> (r, tmp) \<in> set rs \<Longrightarrow>
     \<exists>inner. remap_pairs ps tmp [] = Inr inner \<and> map_of sv' r = Some (Dict inner)"
proof (induction rs arbitrary: sv)
  case Nil
  then show ?case by simp
next
  case (Cons a rs)
  obtain r0 t0 where a: "a = (r0, t0)" by (cases a)
  from Cons.prems(1) obtain inner where i: "remap_pairs ps t0 [] = Inr inner"
    and rr: "remap_rounds rs ps (dict_set sv r0 (Dict inner)) = Inr sv'"
    by (auto simp: a split: sum.splits)
  from Cons.prems(2) have wf: "wf_dict rs" and r0: "r0 \<notin> fst ` set rs"
    by (auto simp: a wf_dict_def)
  show ?case
  proof (cases "(r, tmp) = (r0, t0)")
    case True
    from remap_rounds_other[OF rr r0] have "map_of sv' r0 = Some (Dict inner)"
      by (simp add: map_of_dict_set)
    with True i show ?thesis by simp
  next
    case False
    with Cons.prems(3) have "(r, tmp) \<in> set rs" by (auto simp: a)
    from Cons.IH[OF rr wf this] show ?thesis .
  qed
qed

lemma remap_rounds_keys:
  "remap_rounds rs ps sv = Inr sv' \<Longrightarrow> wf_dict rs \<Longrightarrow> fst ` set rs \<inter> fst ` set sv = {} \<Longrightarrow>
     map fst sv' = map fst sv @ map fst rs"
proof (induction rs arbitrary: sv)
  case Nil
  then show ?case by simp
next
  case (Cons a rs)
  obtain r0 t0 where a: "a = (r0, t0)" by (cases a)
  from Cons.prems(1) obtain inner where i: "remap_pairs ps t0 [] = Inr inner"
    and rr: "remap_rounds rs ps (dict_set sv r0 (Dict inner)) = Inr sv'"
    by (auto simp: a split: sum.splits)
  from Cons.prems(2) have wf: "wf_dict rs" and r0: "r0 \<notin> fst ` set rs"
    by (auto simp: a wf_dict_def)
  from Cons.prems(3) have "r0 \<notin> fst ` set sv" by (auto simp: a)
  then have ds: "dict_set sv r0 (Dict inner) = sv @ [(r0, Dict inner)]" by (rule dict_set_fresh)
  have "fst ` set rs \<inter> fst ` set (dict_set sv r0 (Dict inner)) = {}"
    using Cons.prems(3) r0 by (auto simp: ds a)
  from Cons.IH[OF rr wf this] show ?case by (simp add: ds a)
qed

lemma remap_rounds_succeeds:
  "\<forall>tmp \<in> snd ` set rs. \<exists>inner. remap_pairs ps tmp [] = Inr inner \<Longrightarrow>
     \<exists>sv'. remap_rounds rs ps sv = Inr sv'"
proof (induction rs arbitrary: sv)
  case Nil
  show ?case by simp
next
  case (Cons a rs)
  obtain r0 t0 where a: "a = (r0, t0)" by (cases a)
  from Cons.prems obtain inner where i: "remap_pairs ps t0 [] = Inr inner" by (auto simp: a)
  from Cons.prems have "\<forall>tmp \<in> snd ` set rs. \<exists>inner. remap_pairs ps tmp [] = Inr inner" by simp
  from Cons.IH[OF this] show ?case by (simp add: a i)
qed

lemma remap_rounds_truncates:
  fixes ids :: "'p::linorder set" and original :: "('p, 'v) dict"
  assumes wfo: "wf_dict original"
    and present: "\<forall>(round, tmp) \<in> set original. \<forall>slot < min (card ids) (nat n).
                     \<exists>x. subscript tmp (KInt (int slot)) = Inr x"
  shows "\<exists>remapped. remap_rounds original (zip (sorted_py ids) (range_py n)) [] = Inr remapped \<and>
           map fst remapped = map fst original \<and>
           (\<forall>(round, tmp) \<in> set original.
              \<exists>inner. dict_get remapped round = Inr (Dict inner) \<and>
                 map fst inner = map KId (take (min (card ids) (nat n)) (sorted_py ids)) \<and>
                 (\<forall>slot < min (card ids) (nat n).
                    subscript (Dict inner) (KId (sorted_py ids ! slot)) =
                    subscript tmp (KInt (int slot))))"
proof -
  let ?m = "min (card ids) (nat n)"
  let ?pairs = "zip (sorted_py ids) (range_py n)"
  have snd_pairs: "snd ` set ?pairs = int ` {..<?m}"
    by (simp add: pairs_snd sorted_py_props)
  have dist: "distinct (map fst ?pairs)"
    by (rule pairs_distinct) (rule sorted_py_props)
  have "\<exists>inner. remap_pairs ?pairs tmp [] = Inr inner" if "tmp \<in> snd ` set original" for tmp
  proof (rule remap_pairs_succeeds)
    from that obtain round where "(round, tmp) \<in> set original" by auto
    with present show "\<forall>w \<in> snd ` set ?pairs. \<exists>x. subscript tmp (KInt w) = Inr x"
      unfolding snd_pairs by auto
  qed
  then have "\<exists>remapped. remap_rounds original ?pairs [] = Inr remapped"
    by (intro remap_rounds_succeeds) blast
  then obtain remapped where rr: "remap_rounds original ?pairs [] = Inr remapped" ..
  have keys: "map fst remapped = map fst original"
    using remap_rounds_keys[OF rr wfo] by simp
  have per_round: "\<exists>inner. dict_get remapped round = Inr (Dict inner) \<and>
                 map fst inner = map KId (take ?m (sorted_py ids)) \<and>
                 (\<forall>slot < ?m. subscript (Dict inner) (KId (sorted_py ids ! slot)) =
                    subscript tmp (KInt (int slot)))"
    if mem: "(round, tmp) \<in> set original" for round tmp
  proof -
    from remap_rounds_lookup[OF rr wfo mem] obtain inner
      where rp: "remap_pairs ?pairs tmp [] = Inr inner"
        and rl: "map_of remapped round = Some (Dict inner)" by blast
    have "map fst inner = map (\<lambda>(p, w). KId p) ?pairs"
      using remap_pairs_keys[OF rp dist] by simp
    also have "\<dots> = map KId (map fst ?pairs)"
      by (simp add: case_prod_unfold)
    also have "map fst ?pairs = take ?m (sorted_py ids)"
      by (auto simp: pairs_fst sorted_py_props min_def)
    finally have k: "map fst inner = map KId (take ?m (sorted_py ids))" .
    have v: "subscript (Dict inner) (KId (sorted_py ids ! slot)) = subscript tmp (KInt (int slot))"
      if s: "slot < ?m" for slot
    proof -
      from s have "(sorted_py ids ! slot, int slot) \<in> set ?pairs"
        by (intro pairs_nth) (auto simp: sorted_py_props)
      from remap_pairs_lookup[OF rp dist this] show ?thesis
        by (auto simp: subscript_def dict_get_def)
    qed
    from rl k v show ?thesis by (auto simp: dict_get_def)
  qed
  from rr keys per_round show ?thesis by blast
qed

subsection \<open>The loop over the accumulated fragment\<close>

lemma post_process_other:
  "post_process acc ps stats = Inr out \<Longrightarrow> k \<notin> fst ` set acc \<Longrightarrow> map_of out k = map_of stats k"
proof (induction acc arbitrary: stats)
  case Nil
  then show ?case by simp
next
  case (Cons a acc)
  obtain k0 v0 where a: "a = (k0, v0)" by (cases a)
  from Cons.prems(2) have ne: "k \<noteq> k0" and notin: "k \<notin> fst ` set acc" by (auto simp: a)
  from Cons.prems(1) obtain y where "post_process acc ps (dict_set stats k0 y) = Inr out"
    by (auto simp: a split: if_splits sum.splits)
  from Cons.IH[OF this notin] ne show ?case by (simp add: map_of_dict_set)
qed

lemma post_process_sv:
  "post_process acc ps stats = Inr out \<Longrightarrow> wf_dict acc \<Longrightarrow> (KStr ''sv'', v) \<in> set acc \<Longrightarrow>
     \<exists>rounds sv_dict. items v = Inr rounds \<and> remap_rounds rounds ps [] = Inr sv_dict \<and>
        map_of out (KStr ''sv'') = Some (Dict sv_dict)"
proof (induction acc arbitrary: stats)
  case Nil
  then show ?case by simp
next
  case (Cons a acc)
  obtain k0 v0 where a: "a = (k0, v0)" by (cases a)
  from Cons.prems(2) have wf: "wf_dict acc" and k0: "k0 \<notin> fst ` set acc"
    by (auto simp: a wf_dict_def)
  show ?case
  proof (cases "k0 = KStr ''sv''")
    case True
    with Cons.prems(3) k0 have v: "v0 = v" by (force simp: a)
    from Cons.prems(1) True obtain rounds sv_dict where i: "items v = Inr rounds"
      and r: "remap_rounds rounds ps [] = Inr sv_dict"
      and p: "post_process acc ps (dict_set stats k0 (Dict sv_dict)) = Inr out"
      by (auto simp: a v split: sum.splits)
    from post_process_other[OF p k0] True have "map_of out (KStr ''sv'') = Some (Dict sv_dict)"
      by (simp add: map_of_dict_set)
    with i r show ?thesis by blast
  next
    case False
    with Cons.prems(3) have mem: "(KStr ''sv'', v) \<in> set acc" by (auto simp: a)
    from Cons.prems(1) False have "post_process acc ps (dict_set stats k0 v0) = Inr out"
      by (simp add: a)
    from Cons.IH[OF this wf mem] show ?thesis .
  qed
qed

lemma post_process_succeeds:
  "\<forall>v. (KStr ''sv'', v) \<in> set acc \<longrightarrow>
       (\<exists>rounds sv_dict. items v = Inr rounds \<and> remap_rounds rounds ps [] = Inr sv_dict) \<Longrightarrow>
   \<exists>out. post_process acc ps stats = Inr out"
proof (induction acc arbitrary: stats)
  case Nil
  show ?case by simp
next
  case (Cons a acc)
  obtain k0 v0 where a: "a = (k0, v0)" by (cases a)
  from Cons.prems have rest: "\<forall>v. (KStr ''sv'', v) \<in> set acc \<longrightarrow>
       (\<exists>rounds sv_dict. items v = Inr rounds \<and> remap_rounds rounds ps [] = Inr sv_dict)"
    by simp
  show ?case
  proof (cases "k0 = KStr ''sv''")
    case True
    with Cons.prems obtain rounds sv_dict where "items v0 = Inr rounds"
      "remap_rounds rounds ps [] = Inr sv_dict" by (auto simp: a)
    with Cons.IH[OF rest] True show ?thesis by (simp add: a)
  next
    case False
    with Cons.IH[OF rest] show ?thesis by (simp add: a)
  qed
qed

lemma post_process_total:
  assumes wf: "wf_dict acc"
    and tbl: "\<forall>v. dict_get acc (KStr ''sv'') = Inr v \<longrightarrow> attribution_table n v"
  shows "\<exists>stats. post_process acc (zip xs (range_py n)) [] = Inr stats"
proof (rule post_process_succeeds, intro allI impI)
  fix v
  assume mem: "(KStr ''sv'', v) \<in> set acc"
  with wf have "dict_get acc (KStr ''sv'') = Inr v"
    by (simp add: wf_dict_def dict_get_def)
  with tbl have at: "attribution_table n v" by blast
  then obtain rounds where v: "v = Dict rounds"
    by (cases v) (simp_all add: attribution_table_def)
  have "\<exists>inner. remap_pairs (zip xs (range_py n)) tmp [] = Inr inner"
    if "tmp \<in> snd ` set rounds" for tmp
  proof (rule remap_pairs_succeeds, intro ballI)
    fix w
    assume "w \<in> snd ` set (zip xs (range_py n))"
    then have w: "w \<in> set (range_py n)"
      by (auto dest: set_zip_rightD)
    from that obtain r where "(r, tmp) \<in> set rounds" by auto
    with at v w have "\<forall>e. subscript tmp (KInt w) \<noteq> Inl e"
      by (fastforce simp: attribution_table_def list_all_iff split: sum.splits)
    then show "\<exists>x. subscript tmp (KInt w) = Inr x"
      by (cases "subscript tmp (KInt w)") auto
  qed
  then have "\<exists>sv_dict. remap_rounds rounds (zip xs (range_py n)) [] = Inr sv_dict"
    by (intro remap_rounds_succeeds) blast
  with v show "\<exists>rounds sv_dict. items v = Inr rounds \<and>
      remap_rounds rounds (zip xs (range_py n)) [] = Inr sv_dict"
    by (simp add: items_def)
qed

subsection \<open>Merging the results of a poll\<close>

lemma non_null_append: "non_null (xs @ ys) = non_null xs @ non_null ys"
  by (induction xs rule: non_null.induct) simp_all

lemma merge_results_registered:
  "tr task_id = Some acc \<Longrightarrow>
     merge_results rs task_id tr = Inr (tr(task_id \<mapsto> foldl dict_ior acc (non_null rs)))"
proof (induction rs arbitrary: tr acc)
  case Nil
  then show ?case by (simp add: map_upd_triv)
next
  case (Cons r rs)
  show ?case
  proof (cases r)
    case None
    with Cons show ?thesis by simp
  next
    case (Some f)
    have "(tr(task_id \<mapsto> dict_ior acc f)) task_id = Some (dict_ior acc f)" by simp
    from Cons.IH[of "tr(task_id \<mapsto> dict_ior acc f)" "dict_ior acc f", OF this]
    have "merge_results rs task_id (tr(task_id \<mapsto> dict_ior acc f)) =
            Inr (tr(task_id \<mapsto> foldl dict_ior (dict_ior acc f) (non_null rs)))"
      by (simp only: fun_upd_upd)
    with Cons.prems Some show ?thesis by (simp add: fun_upd_def)
  qed
qed

subsection \<open>The three outcomes of a poll\<close>

lemma get_training_result_unknown:
  "tasks st task_id = None \<Longrightarrow> get_training_result reply task_id timeout st = (Inl KeyError, st)"
  by (simp add: get_training_result_def)

lemma get_training_result_incomplete:
  assumes "tasks st task_id = Some task" and "task_results st task_id = Some acc0"
    and "not_done reply"
  shows "get_training_result reply task_id timeout st =
     (Inr None,
      st\<lparr>trace := trace st @ [WaitResults (process_pool task) timeout],
         task_results := (task_results st)(task_id \<mapsto>
            foldl dict_ior acc0 (non_null (map snd (results reply))))\<rparr>)"
  using assms by (simp add: get_training_result_def merge_results_registered)

lemma get_training_result_complete:
  assumes "tasks st task_id = Some task" and "task_results st task_id = Some acc0"
    and "\<not> not_done reply"
  shows "get_training_result reply task_id timeout st =
     (let acc = foldl dict_ior acc0 (non_null (map snd (results reply)));
          st1 = st\<lparr>trace := trace st @ [WaitResults (process_pool task) timeout,
                                         Shutdown (process_pool task) None],
                    tasks := (tasks st)(task_id := None),
                    task_results := (task_results st)(task_id \<mapsto> acc)\<rparr>
      in case post_process acc (zip (sorted_py (practitioner_ids task))
                                      (range_py (worker_number (task_config task)))) [] of
           Inl e \<Rightarrow> (Inl e, st1)
         | Inr stats \<Rightarrow> (Inr (Some stats), st1\<lparr>task_results := (task_results st)(task_id := None)\<rparr>))"
  using assms by (simp add: get_training_result_def merge_results_registered Let_def split: sum.splits)

section \<open>Launching workers and training\<close>

lemma start_workers_ok:
  "worker_configs \<noteq> [] \<Longrightarrow>
     start_workers (FederatedLearningContext c) worker_configs st =
       (Inr (), st\<lparr>trace := trace st @ [worker_batch c worker_configs]\<rparr>)"
  by (simp add: start_workers_def submit_def worker_batch_def)

lemma start_workers_empty:
  "start_workers context [] st = (Inl AssertionError, st)"
  by (simp add: start_workers_def split: pyobj.splits)

lemma start_workers_other:
  "start_workers OtherObject worker_configs st = (Inl AssertionError, st)"
  by (simp add: start_workers_def)

lemma start_all_workers_run:
  "start_all_workers (FederatedLearningContext c) batches st =
     (if [] \<in> set batches then Inl AssertionError else Inr (),
      st\<lparr>trace := trace st @ map (worker_batch c) (takeWhile (\<lambda>b. b \<noteq> []) batches)\<rparr>)"
proof (induction batches arbitrary: st)
  case Nil
  show ?case by simp
next
  case (Cons b batches)
  show ?case
  proof (cases "b = []")
    case True
    then show ?thesis by (simp add: start_workers_empty)
  next
    case False
    then show ?thesis by (simp add: start_workers_ok Cons.IH) 
  qed
qed

lemma train_trace:
  fixes st :: "('p, 'v, 'c) state"
  assumes wc: "wc = get_worker_config env (reset_session env config0)
                  (if practitioners = None then None else Some (uuid4_int env + getpid env))
                  practitioners"
    and ctx: "context_entry wc = Some (FederatedLearningContext c)"
    and srv: "server_entry wc = Some sc"
  shows "trace (snd (train env config0 practitioners st)) =
     trace st @
     (ApplyGlobalConfig #
      (if practitioners = None then [AddFileHandler (log_file (reset_session env config0))] else [])) @
     [Submit c [StartServer] (ServerConfig sc)] @
     (case worker_entry wc of
        None \<Rightarrow> []
      | Some batches \<Rightarrow>
          map (worker_batch c) (takeWhile (\<lambda>b. b \<noteq> []) batches) @
          (if [] \<notin> set batches \<and> practitioners = None
           then [WaitResults (executor_pool c) None, Shutdown (executor_pool c) (Some True)]
           else []))"
  using ctx srv unfolding wc
  by (cases practitioners)
     (simp_all add: train_def Let_def submit_def start_all_workers_run split: option.splits)

lemma train_result:
  fixes st :: "('p, 'v, 'c) state"
  assumes wc: "wc = get_worker_config env (reset_session env config0)
                  (if practitioners = None then None else Some (uuid4_int env + getpid env))
                  practitioners"
  shows "fst (train env config0 practitioners st) =
     (case context_entry wc of
        None \<Rightarrow> Inl KeyError
      | Some OtherObject \<Rightarrow> Inl AssertionError
      | Some (FederatedLearningContext c) \<Rightarrow>
          (case server_entry wc of
             None \<Rightarrow> Inl AssertionError
           | Some sc \<Rightarrow>
               (case worker_entry wc of
                  None \<Rightarrow> Inl KeyError
                | Some batches \<Rightarrow>
                    if [] \<in> set batches then Inl AssertionError
                    else if practitioners = None then Inr None
                    else Inr (Some (uuid4_int env + getpid env)))))"
  unfolding wc
  by (cases practitioners)
     (auto simp: train_def Let_def submit_def start_all_workers_run
        split: option.splits pyobj.splits)

lemma train_registry_sync:
  fixes st :: "('p, 'v, 'c) state"
  shows "tasks (snd (train env config0 None st)) = tasks st \<and>
         task_results (snd (train env config0 None st)) = task_results st"
  by (simp add: train_def Let_def submit_def start_all_workers_run
      split: option.splits pyobj.splits)

lemma example_train_async:
  "fst (train (example_env u) example_config (Some example_practitioners) idle_state) =
     Inr (Some (u + 4242))"
  by (simp add: train_result[OF refl] example_env_def example_worker_config_def)

section \<open>The claims\<close>

text \<open>
  Claim C1. When \<^verbatim>\<open>get_training_result\<close> finds the run complete and the recorded
  \<^verbatim>\<open>worker_number\<close> is the number of recorded participant identifiers, the returned
  \<^verbatim>\<open>sv\<close> table has the rounds of the accumulated one, and in every round the entry of
  a recorded participant is the entry that the accumulated table has at the worker slot
  equal to the participant's rank: the number of recorded identifiers below its own, which
  is its position in the sorted list. The scenario of the specification (participants p3,
  p1, p2 and one server fragment) returns the expected statistics.
\<close>

theorem sv_remap_by_rank:
  fixes st :: "('p::linorder, 'v, 'c) state"
  assumes reg: "tasks st task_id = Some task"
    and fin: "finite (practitioner_ids task)"
    and wn: "worker_number (task_config task) = int (card (practitioner_ids task))"
    and ret: "get_training_result reply task_id timeout st = (Inr (Some stats), st')"
    and mrg: "merge_results (map snd (results reply)) task_id (task_results st) = Inr tr"
    and acc: "tr task_id = Some acc"
    and wf: "wf_dict acc"
    and sv: "dict_get acc (KStr ''sv'') = Inr (Dict original)"
    and wfo: "wf_dict original"
  shows "(\<exists>remapped. dict_get stats (KStr ''sv'') = Inr (Dict remapped) \<and>
            map fst remapped = map fst original \<and>
            (\<forall>round \<in> fst ` set original. \<forall>pid \<in> practitioner_ids task.
               sorted_py (practitioner_ids task) !
                 card {q \<in> practitioner_ids task. q < pid} = pid \<and>
               (\<exists>x. subscript2 (Dict original) round
                        (KInt (int (card {q \<in> practitioner_ids task. q < pid}))) = Inr x \<and>
                    subscript2 (Dict remapped) round (KId pid) = Inr x))) \<and>
         get_training_result example_reply 7 None example_state =
           (Inr (Some example_stats),
            \<lparr>tasks = Map.empty, task_results = Map.empty,
             trace = [WaitResults (Pool 0) None, Shutdown (Pool 0) None]\<rparr>)"
proof
  let ?P = "practitioner_ids task"
  let ?pairs = "zip (sorted_py ?P) (range_py (worker_number (task_config task)))"
  from ret reg mrg acc have pp: "post_process acc ?pairs [] = Inr stats"
    by (auto simp: get_training_result_def Let_def split: if_splits sum.splits)
  from sv have mem: "(KStr ''sv'', Dict original) \<in> set acc"
    by (auto simp: dict_get_def split: option.splits dest: map_of_SomeD)
  from post_process_sv[OF pp wf mem] obtain remapped
    where rr: "remap_rounds original ?pairs [] = Inr remapped"
      and st: "map_of stats (KStr ''sv'') = Some (Dict remapped)"
    by (auto simp: items_def)
  have keys: "map fst remapped = map fst original"
    using remap_rounds_keys[OF rr wfo] by simp
  have dist: "distinct (map fst ?pairs)"
    by (rule pairs_distinct) (rule sorted_py_props)
  have inner: "\<exists>x. subscript2 (Dict original) round (KInt (int slot)) = Inr x \<and>
                   subscript2 (Dict remapped) round (KId (sorted_py ?P ! slot)) = Inr x"
    if r: "round \<in> fst ` set original" and s: "slot < card ?P" for round slot
  proof -
    from r obtain tmp where tmp: "(round, tmp) \<in> set original" by auto
    with wfo have o: "map_of original round = Some tmp" by (simp add: wf_dict_def)
    from remap_rounds_lookup[OF rr wfo tmp] obtain inner
      where rp: "remap_pairs ?pairs tmp [] = Inr inner"
        and rl: "map_of remapped round = Some (Dict inner)" by blast
    from s have "(sorted_py ?P ! slot, int slot) \<in> set ?pairs"
      by (intro pairs_nth) (simp_all add: sorted_py_props wn)
    from remap_pairs_lookup[OF rp dist this] obtain x
      where "subscript tmp (KInt (int slot)) = Inr x"
        and "map_of inner (KId (sorted_py ?P ! slot)) = Some x" by blast
    with o rl show ?thesis
      by (auto simp: subscript2_def subscript_def dict_get_def)
  qed
  have by_rank: "sorted_py ?P ! card {q \<in> ?P. q < pid} = pid \<and>
      (\<exists>x. subscript2 (Dict original) round (KInt (int (card {q \<in> ?P. q < pid}))) = Inr x \<and>
           subscript2 (Dict remapped) round (KId pid) = Inr x)"
    if r: "round \<in> fst ` set original" and p: "pid \<in> ?P" for round pid
  proof -
    from sorted_py_rank[OF fin p]
    have slot: "card {q \<in> ?P. q < pid} < card ?P"
      and pos: "sorted_py ?P ! card {q \<in> ?P. q < pid} = pid" by simp_all
    from inner[OF r slot] pos show ?thesis by simp
  qed
  from st have "dict_get stats (KStr ''sv'') = Inr (Dict remapped)"
    by (simp add: dict_get_def)
  with keys by_rank
  show "\<exists>remapped. dict_get stats (KStr ''sv'') = Inr (Dict remapped) \<and>
            map fst remapped = map fst original \<and>
            (\<forall>round \<in> fst ` set original. \<forall>pid \<in> ?P.
               sorted_py ?P ! card {q \<in> ?P. q < pid} = pid \<and>
               (\<exists>x. subscript2 (Dict original) round
                        (KInt (int (card {q \<in> ?P. q < pid}))) = Inr x \<and>
                    subscript2 (Dict remapped) round (KId pid) = Inr x))"
    by blast
next
  show "get_training_result example_reply 7 None example_state =
           (Inr (Some example_stats),
            \<lparr>tasks = Map.empty, task_results = Map.empty,
             trace = [WaitResults (Pool 0) None, Shutdown (Pool 0) None]\<rparr>)"
    by (simp add: get_training_result_def example_reply_def example_state_def example_task_def
        example_fragment_def example_sv_def example_stats_def sorted_py_def range_py_def dict_ior_def
        dict_set_def items_def subscript_def dict_get_def upt_rec)
qed

theorem sv_remap_by_rank_witness:
  "tasks example_state 7 = Some example_task \<and>
   worker_number (task_config example_task) = int (card (practitioner_ids example_task)) \<and>
   get_training_result example_reply 7 None example_state =
     (Inr (Some example_stats),
      \<lparr>tasks = Map.empty, task_results = Map.empty,
       trace = [WaitResults (Pool 0) None, Shutdown (Pool 0) None]\<rparr>) \<and>
   merge_results (map snd (results example_reply)) 7 (task_results example_state) =
     Inr [7 \<mapsto> example_fragment] \<and>
   wf_dict example_fragment \<and>
   dict_get example_fragment (KStr ''sv'') = Inr (Dict example_sv) \<and>
   wf_dict example_sv \<and>
   (\<exists>remapped. dict_get example_stats (KStr ''sv'') = Inr (Dict remapped) \<and>
      map fst remapped = map fst example_sv \<and>
      (\<forall>round \<in> fst ` set example_sv. \<forall>pid \<in> practitioner_ids example_task.
         sorted_py (practitioner_ids example_task) !
           card {q \<in> practitioner_ids example_task. q < pid} = pid \<and>
         (\<exists>x. subscript2 (Dict example_sv) round
                  (KInt (int (card {q \<in> practitioner_ids example_task. q < pid}))) = Inr x \<and>
              subscript2 (Dict remapped) round (KId pid) = Inr x)))"
proof -
  have reg: "tasks example_state 7 = Some example_task"
    by (simp add: example_state_def)
  have wn: "worker_number (task_config example_task) = int (card (practitioner_ids example_task))"
    by (simp add: example_task_def)
  have fin: "finite (practitioner_ids example_task)"
    by (simp add: example_task_def)
  have mrg: "merge_results (map snd (results example_reply)) 7 (task_results example_state) =
      Inr [7 \<mapsto> example_fragment]"
    by (simp add: example_reply_def example_state_def example_fragment_def dict_ior_def dict_set_def)
  have acc: "[7 \<mapsto> example_fragment] (7::int) = Some example_fragment"
    by simp
  have wf: "wf_dict example_fragment"
    by (simp add: wf_dict_def example_fragment_def)
  have sv: "dict_get example_fragment (KStr ''sv'') = Inr (Dict example_sv)"
    by (simp add: dict_get_def example_fragment_def)
  have wfo: "wf_dict example_sv"
    by (simp add: wf_dict_def example_sv_def)
  have ret: "get_training_result example_reply 7 None example_state =
     (Inr (Some example_stats),
      \<lparr>tasks = Map.empty, task_results = Map.empty,
       trace = [WaitResults (Pool 0) None, Shutdown (Pool 0) None]\<rparr>)"
    by (simp add: get_training_result_def example_reply_def example_state_def example_task_def
        example_fragment_def example_sv_def example_stats_def sorted_py_def range_py_def
        dict_ior_def dict_set_def items_def subscript_def dict_get_def upt_rec)
  from sv_remap_by_rank[OF reg fin wn ret mrg acc wf sv wfo, THEN conjunct1]
    reg wn ret mrg wf sv wfo
  show ?thesis by (intro conjI)
qed

text \<open>
  Claim C2, as stated, promises the statistics and the removal from both registries for
  every registered task whose pool reports completion. The post-processing can raise: with
  three participants and three worker slots, a table whose round 1 has values for the
  slots 0 and 2 only makes \<^verbatim>\<open>tmp_sv_dict[worker_id]\<close> raise \<^verbatim>\<open>KeyError\<close> at slot 1.
  The call then returns no statistics and the task is still in \<^verbatim>\<open>task_results\<close>.
\<close>

theorem get_training_result_lifecycle_counterexample:
  "tasks example_state 7 = Some example_task \<and>
   task_results example_state 7 = Some [] \<and>
   \<not> not_done partial_reply \<and>
   fst (get_training_result partial_reply 7 None example_state) = Inl KeyError \<and>
   task_results (snd (get_training_result partial_reply 7 None example_state)) 7 =
     Some partial_fragment"
  by (simp add: get_training_result_def example_state_def example_task_def partial_reply_def
      partial_fragment_def partial_sv_def sorted_py_def range_py_def upt_rec dict_ior_def
      dict_set_def items_def subscript_def dict_get_def)

text \<open>
  Claim C2, amended. For a task registered by \<^verbatim>\<open>train\<close> (an entry in both
  registries): a poll that the pool reports incomplete returns \<open>None\<close> and leaves the
  task in both registries; a poll that the pool reports complete and whose post-processing
  raises no error returns the assembled statistics and removes the task from both
  registries, after which every call with that identifier fails with \<^verbatim>\<open>KeyError\<close>; a
  call with an identifier that is not registered fails with \<^verbatim>\<open>KeyError\<close> and changes
  nothing. The post-processing raises no error when the accumulated \<^verbatim>\<open>sv\<close> entry, if
  there is one, is an attribution table with all the recorded worker slots in every round.
\<close>

theorem get_training_result_lifecycle:
  fixes st :: "('p::linorder, 'v, 'c) state"
  assumes reg: "tasks st task_id = Some task"
    and res: "task_results st task_id = Some acc0"
    and wf: "wf_dict acc0"
  shows "(not_done reply \<longrightarrow>
            (\<exists>st' acc. get_training_result reply task_id timeout st = (Inr None, st') \<and>
               tasks st' task_id = Some task \<and> task_results st' task_id = Some acc \<and>
               wf_dict acc)) \<and>
         (\<not> not_done reply \<longrightarrow>
            (\<forall>stats.
               post_process (foldl dict_ior acc0 (non_null (map snd (results reply))))
                 (zip (sorted_py (practitioner_ids task))
                      (range_py (worker_number (task_config task)))) [] = Inr stats \<longrightarrow>
               (\<exists>st'. get_training_result reply task_id timeout st = (Inr (Some stats), st') \<and>
                  tasks st' task_id = None \<and> task_results st' task_id = None \<and>
                  (\<forall>reply' timeout'.
                     get_training_result reply' task_id timeout' st' = (Inl KeyError, st')))) \<and>
            ((\<forall>v. dict_get (foldl dict_ior acc0 (non_null (map snd (results reply))))
                     (KStr ''sv'') = Inr v \<longrightarrow>
                   attribution_table (worker_number (task_config task)) v) \<longrightarrow>
             (\<exists>stats.
                post_process (foldl dict_ior acc0 (non_null (map snd (results reply))))
                  (zip (sorted_py (practitioner_ids task))
                       (range_py (worker_number (task_config task)))) [] = Inr stats))) \<and>
         (\<forall>st0 :: ('p, 'v, 'c) state.
            tasks st0 task_id = None \<longrightarrow>
            get_training_result reply task_id timeout st0 = (Inl KeyError, st0))"
proof (intro conjI impI allI)
  assume "not_done reply"
  from get_training_result_incomplete[OF reg res this, of timeout] wf_foldl_ior[OF wf]
  show "\<exists>st' acc. get_training_result reply task_id timeout st = (Inr None, st') \<and>
          tasks st' task_id = Some task \<and> task_results st' task_id = Some acc \<and> wf_dict acc"
    using reg by simp
next
  fix stats
  assume complete: "\<not> not_done reply"
    and pp: "post_process (foldl dict_ior acc0 (non_null (map snd (results reply))))
               (zip (sorted_py (practitioner_ids task))
                    (range_py (worker_number (task_config task)))) [] = Inr stats"
  let ?st' = "snd (get_training_result reply task_id timeout st)"
  have r: "get_training_result reply task_id timeout st = (Inr (Some stats), ?st')"
    by (simp add: get_training_result_complete[OF reg res complete] pp)
  have t: "tasks ?st' task_id = None" and tr: "task_results ?st' task_id = None"
    by (simp_all add: get_training_result_complete[OF reg res complete] pp)
  from t have "\<forall>reply' timeout'.
      get_training_result reply' task_id timeout' ?st' = (Inl KeyError, ?st')"
    by (simp add: get_training_result_unknown)
  with r t tr
  show "\<exists>st'. get_training_result reply task_id timeout st = (Inr (Some stats), st') \<and>
          tasks st' task_id = None \<and> task_results st' task_id = None \<and>
          (\<forall>reply' timeout'.
             get_training_result reply' task_id timeout' st' = (Inl KeyError, st'))"
    by blast
next
  assume "\<forall>v. dict_get (foldl dict_ior acc0 (non_null (map snd (results reply))))
                 (KStr ''sv'') = Inr v \<longrightarrow>
               attribution_table (worker_number (task_config task)) v"
  with wf_foldl_ior[OF wf]
  show "\<exists>stats.
      post_process (foldl dict_ior acc0 (non_null (map snd (results reply))))
        (zip (sorted_py (practitioner_ids task))
             (range_py (worker_number (task_config task)))) [] = Inr stats"
    by (rule post_process_total)
next
  fix st0 :: "('p, 'v, 'c) state"
  assume "tasks st0 task_id = None"
  then show "get_training_result reply task_id timeout st0 = (Inl KeyError, st0)"
    by (rule get_training_result_unknown)
qed

theorem get_training_result_lifecycle_witness:
  "tasks example_state 7 = Some example_task \<and>
   task_results example_state 7 = Some [] \<and>
   wf_dict ([] :: (string, real) dict) \<and>
   not_done pending_reply \<and>
   (\<exists>st' acc. get_training_result pending_reply 7 None example_state = (Inr None, st') \<and>
      tasks st' 7 = Some example_task \<and> task_results st' 7 = Some acc \<and> wf_dict acc) \<and>
   \<not> not_done example_reply \<and>
   dict_get (foldl dict_ior [] (non_null (map snd (results example_reply)))) (KStr ''sv'') =
     Inr (Dict example_sv) \<and>
   attribution_table (worker_number (task_config example_task)) (Dict example_sv) \<and>
   (\<exists>stats.
      post_process (foldl dict_ior [] (non_null (map snd (results example_reply))))
        (zip (sorted_py (practitioner_ids example_task))
             (range_py (worker_number (task_config example_task)))) [] = Inr stats) \<and>
   post_process (foldl dict_ior [] (non_null (map snd (results example_reply))))
     (zip (sorted_py (practitioner_ids example_task))
          (range_py (worker_number (task_config example_task)))) [] = Inr example_stats \<and>
   (\<exists>st'. get_training_result example_reply 7 None example_state = (Inr (Some example_stats), st') \<and>
      tasks st' 7 = None \<and> task_results st' 7 = None \<and>
      (\<forall>reply' timeout'. get_training_result reply' 7 timeout' st' = (Inl KeyError, st'))) \<and>
   tasks idle_state 7 = None \<and>
   get_training_result example_reply 7 None idle_state = (Inl KeyError, idle_state)"
proof -
  have reg: "tasks example_state 7 = Some example_task"
    and res: "task_results example_state 7 = Some []"
    by (simp_all add: example_state_def)
  have wf: "wf_dict ([] :: (string, real) dict)"
    by (simp add: wf_dict_def)
  have pending: "not_done pending_reply"
    by (simp add: pending_reply_def)
  have complete: "\<not> not_done example_reply"
    by (simp add: example_reply_def)
  have acc: "foldl dict_ior [] (non_null (map snd (results example_reply))) = example_fragment"
    by (simp add: example_reply_def example_fragment_def dict_ior_def dict_set_def)
  have sv: "dict_get (foldl dict_ior [] (non_null (map snd (results example_reply))))
      (KStr ''sv'') = Inr (Dict example_sv)"
    unfolding acc by (simp add: example_fragment_def dict_get_def)
  have at: "attribution_table (worker_number (task_config example_task)) (Dict example_sv)"
    by (simp add: example_sv_def example_task_def dict_get_def
        attribution_table_def range_py_def upt_rec subscript_def)
  from sv at
  have tbl: "\<forall>v. dict_get (foldl dict_ior [] (non_null (map snd (results example_reply))))
          (KStr ''sv'') = Inr v \<longrightarrow>
        attribution_table (worker_number (task_config example_task)) v"
    by simp
  have pp: "post_process (foldl dict_ior [] (non_null (map snd (results example_reply))))
     (zip (sorted_py (practitioner_ids example_task))
          (range_py (worker_number (task_config example_task)))) [] = Inr example_stats"
    unfolding acc
    by (simp add: example_fragment_def example_sv_def example_task_def
        example_stats_def sorted_py_def range_py_def upt_rec items_def subscript_def
        dict_get_def dict_set_def)
  have unknown: "tasks idle_state 7 = None"
    by (simp add: idle_state_def)
  note first = get_training_result_lifecycle[OF reg res wf, of pending_reply None]
  note second = get_training_result_lifecycle[OF reg res wf, of example_reply None]
  from first pending
  have a: "\<exists>st' acc. get_training_result pending_reply 7 None example_state = (Inr None, st') \<and>
      tasks st' 7 = Some example_task \<and> task_results st' 7 = Some acc \<and> wf_dict acc"
    by blast
  from second complete pp
  have b: "\<exists>st'. get_training_result example_reply 7 None example_state =
        (Inr (Some example_stats), st') \<and>
      tasks st' 7 = None \<and> task_results st' 7 = None \<and>
      (\<forall>reply' timeout'. get_training_result reply' 7 timeout' st' = (Inl KeyError, st'))"
    by blast
  from second unknown
  have c: "get_training_result example_reply 7 None idle_state = (Inl KeyError, idle_state)"
    by blast
  from second complete tbl
  have d: "\<exists>stats.
      post_process (foldl dict_ior [] (non_null (map snd (results example_reply))))
        (zip (sorted_py (practitioner_ids example_task))
             (range_py (worker_number (task_config example_task)))) [] = Inr stats"
    by blast
  from reg res wf pending a complete sv at d pp b unknown c show ?thesis by (intro conjI)
qed

text \<open>
  Claim C3. Within one process, the task identifiers returned by asynchronous
  \<^verbatim>\<open>train\<close> calls are pairwise distinct, for any number of calls: each is the random
  value drawn by the call plus the process identifier, and the random values are unique.
\<close>

theorem task_ids_distinct:
  fixes calls :: "(('p, 'c) env \<times> config \<times> 'p practitioner set \<times> ('p, 'v, 'c) state) list"
  assumes same_process: "\<forall>(env, config0, practitioners, st) \<in> set calls. getpid env = pid"
    and unique_random: "distinct (map (\<lambda>(env, config0, practitioners, st). uuid4_int env) calls)"
    and returned: "\<forall>(env, config0, practitioners, st) \<in> set calls.
                     \<exists>r. fst (train env config0 (Some practitioners) st) = Inr r"
  shows "distinct (map (\<lambda>(env, config0, practitioners, st).
                          fst (train env config0 (Some practitioners) st)) calls) \<and>
         (\<forall>(env, config0, practitioners, st) \<in> set calls.
            fst (train env config0 (Some practitioners) st) =
              Inr (Some (uuid4_int env + getpid env)))"
proof -
  have minted: "fst (train env config0 (Some practitioners) st) =
      Inr (Some (uuid4_int env + getpid env))"
    if "fst (train env config0 (Some practitioners) st) = Inr r"
    for env :: "('p, 'c) env" and config0 practitioners r and st :: "('p, 'v, 'c) state"
    using that unfolding train_result[OF refl]
    by (auto split: option.splits pyobj.splits if_splits)
  have all: "\<forall>(env, config0, practitioners, st) \<in> set calls.
      fst (train env config0 (Some practitioners) st) = Inr (Some (uuid4_int env + getpid env))"
    using returned minted by fastforce
  then have "map (\<lambda>(env, config0, practitioners, st).
                    fst (train env config0 (Some practitioners) st)) calls =
             map (\<lambda>(env, config0, practitioners, st). Inr (Some (uuid4_int env + pid))) calls"
    using same_process by (intro map_cong) auto
  also have "\<dots> = map (\<lambda>u. Inr (Some (u + pid)))
                     (map (\<lambda>(env, config0, practitioners, st). uuid4_int env) calls)"
    by (simp add: case_prod_unfold comp_def)
  finally have "distinct (map (\<lambda>(env, config0, practitioners, st).
                          fst (train env config0 (Some practitioners) st)) calls)"
    using unique_random by (simp add: distinct_map inj_on_def)
  with all show ?thesis by simp
qed

theorem task_ids_distinct_witness:
  "map (\<lambda>(env, config0, practitioners, st). getpid env) example_calls = [4242, 4242, 4242] \<and>
   distinct (map (\<lambda>(env, config0, practitioners, st). uuid4_int env) example_calls) \<and>
   distinct (map (\<lambda>(env, config0, practitioners, st).
                    fst (train env config0 (Some practitioners) st)) example_calls) \<and>
   map (\<lambda>(env, config0, practitioners, st).
          fst (train env config0 (Some practitioners) st)) example_calls =
     [Inr (Some 4252), Inr (Some 4253), Inr (Some 4254)]"
proof -
  have same_process: "\<forall>(env, config0, practitioners, st) \<in> set example_calls. getpid env = 4242"
    by (simp add: example_calls_def example_env_def)
  have unique_random:
    "distinct (map (\<lambda>(env, config0, practitioners, st). uuid4_int env) example_calls)"
    by (simp add: example_calls_def example_env_def)
  have returned: "\<forall>(env, config0, practitioners, st) \<in> set example_calls.
      \<exists>r. fst (train env config0 (Some practitioners) st) = Inr r"
    by (simp add: example_calls_def example_train_async)
  have ids: "map (\<lambda>(env, config0, practitioners, st).
          fst (train env config0 (Some practitioners) st)) example_calls =
     [Inr (Some 4252), Inr (Some 4253), Inr (Some 4254)]"
    by (simp add: example_calls_def example_train_async)
  have pids: "map (\<lambda>(env, config0, practitioners, st). getpid env) example_calls =
      [4242, 4242, 4242]"
    by (simp add: example_calls_def example_env_def)
  from task_ids_distinct[OF same_process unique_random returned] pids unique_random ids
  show ?thesis by blast
qed

text \<open>
  Claim C4. In a \<^verbatim>\<open>train\<close> call, with or without participants, whose derived
  configuration holds an execution context and a server configuration, the calls recorded
  by this invocation contain exactly one submission of \<^verbatim>\<open>start_server\<close>, made to that
  context; no worker submission comes before it, and the worker submissions after it are
  the batches of \<^verbatim>\<open>start_workers\<close> on the same context. Every invocation whose derived
  configuration is as the specification describes it is of this kind, and so is every
  invocation that returns.
\<close>

theorem train_server_submitted_first:
  fixes st :: "('p, 'v, 'c) state"
  assumes wc: "wc = get_worker_config env (reset_session env config0)
                  (if practitioners = None then None else Some (uuid4_int env + getpid env))
                  practitioners"
  shows "(\<forall>c sc. context_entry wc = Some (FederatedLearningContext c) \<and> server_entry wc = Some sc \<longrightarrow>
            (\<exists>before after.
               trace (snd (train env config0 practitioners st)) =
                 trace st @ before @ [Submit c [StartServer] (ServerConfig sc)] @ after \<and>
               (\<forall>e \<in> set before. \<not> is_server_submission e \<and> \<not> is_worker_submission e) \<and>
               (\<forall>e \<in> set after. \<not> is_server_submission e) \<and>
               (\<forall>e \<in> set after. is_worker_submission e \<longrightarrow> (\<exists>ws. e = worker_batch c ws)) \<and>
               length (filter is_server_submission
                         (before @ [Submit c [StartServer] (ServerConfig sc)] @ after)) = 1)) \<and>
         (specified_worker_config wc \<or> (\<exists>r. fst (train env config0 practitioners st) = Inr r) \<longrightarrow>
            (\<exists>c sc. context_entry wc = Some (FederatedLearningContext c) \<and>
                    server_entry wc = Some sc))"
proof (intro conjI allI impI)
  fix c sc
  assume "context_entry wc = Some (FederatedLearningContext c) \<and> server_entry wc = Some sc"
  then have ctx: "context_entry wc = Some (FederatedLearningContext c)"
    and srv: "server_entry wc = Some sc" by simp_all
  let ?before = "ApplyGlobalConfig #
      (if practitioners = None then [AddFileHandler (log_file (reset_session env config0))] else [])"
  let ?after = "case worker_entry wc of
        None \<Rightarrow> []
      | Some batches \<Rightarrow>
          map (worker_batch c) (takeWhile (\<lambda>b. b \<noteq> []) batches) @
          (if [] \<notin> set batches \<and> practitioners = None
           then [WaitResults (executor_pool c) None, Shutdown (executor_pool c) (Some True)]
           else [])"
  have tr: "trace (snd (train env config0 practitioners st)) =
      trace st @ ?before @ [Submit c [StartServer] (ServerConfig sc)] @ ?after"
    using train_trace[OF wc ctx srv, of st] by simp
  have b: "\<forall>e \<in> set ?before. \<not> is_server_submission e \<and> \<not> is_worker_submission e"
    by simp
  have wb: "\<not> is_server_submission (worker_batch c ws)" for ws :: "'c list"
    by (auto simp: worker_batch_def)
  have a: "\<forall>e \<in> set ?after. \<not> is_server_submission e"
    by (auto simp: wb split: option.splits)
  have w: "\<forall>e \<in> set ?after. is_worker_submission e \<longrightarrow> (\<exists>ws. e = worker_batch c ws)"
    by (auto split: option.splits if_splits)
  have "filter is_server_submission ?before = []" using b by simp
  moreover have "filter is_server_submission ?after = []" using a by (simp add: filter_empty_conv)
  ultimately have n: "length (filter is_server_submission
      (?before @ [Submit c [StartServer] (ServerConfig sc)] @ ?after)) = 1"
    by simp
  from tr b a w n
  show "\<exists>before after.
       trace (snd (train env config0 practitioners st)) =
         trace st @ before @ [Submit c [StartServer] (ServerConfig sc)] @ after \<and>
       (\<forall>e \<in> set before. \<not> is_server_submission e \<and> \<not> is_worker_submission e) \<and>
       (\<forall>e \<in> set after. \<not> is_server_submission e) \<and>
       (\<forall>e \<in> set after. is_worker_submission e \<longrightarrow> (\<exists>ws. e = worker_batch c ws)) \<and>
       length (filter is_server_submission
                 (before @ [Submit c [StartServer] (ServerConfig sc)] @ after)) = 1"
    by blast
next
  assume "specified_worker_config wc \<or> (\<exists>r. fst (train env config0 practitioners st) = Inr r)"
  then show "\<exists>c sc. context_entry wc = Some (FederatedLearningContext c) \<and> server_entry wc = Some sc"
  proof
    assume "specified_worker_config wc"
    then show ?thesis
      by (auto simp: specified_worker_config_def split: option.splits pyobj.splits)
  next
    assume "\<exists>r. fst (train env config0 practitioners st) = Inr r"
    then show ?thesis
      unfolding train_result[OF wc]
      by (auto split: option.splits pyobj.splits)
  qed
qed

theorem train_server_submitted_first_witness:
  "specified_worker_config example_worker_config \<and>
   context_entry example_worker_config = Some (FederatedLearningContext example_context) \<and>
   server_entry example_worker_config = Some ''server'' \<and>
   fst (train (example_env 10) example_config (Some example_practitioners) idle_state) =
     Inr (Some 4252) \<and>
   trace (snd (train (example_env 10) example_config (Some example_practitioners) idle_state)) =
     [ApplyGlobalConfig,
      Submit example_context [StartServer] (ServerConfig ''server''),
      Submit example_context [RunWorker, RunWorker] (KwargsList [''w0'', ''w1'']),
      Submit example_context [RunWorker] (KwargsList [''w2''])] \<and>
   (\<exists>before after.
      trace (snd (train (example_env 10) example_config (Some example_practitioners) idle_state)) =
        trace idle_state @ before @
        [Submit example_context [StartServer] (ServerConfig ''server'')] @ after \<and>
      (\<forall>e \<in> set before. \<not> is_server_submission e \<and> \<not> is_worker_submission e) \<and>
      (\<forall>e \<in> set after. \<not> is_server_submission e) \<and>
      (\<forall>e \<in> set after. is_worker_submission e \<longrightarrow> (\<exists>ws. e = worker_batch example_context ws)) \<and>
      length (filter is_server_submission
                (before @ [Submit example_context [StartServer] (ServerConfig ''server'')] @ after)) = 1)"
proof -
  have wc: "example_worker_config =
      get_worker_config (example_env 10) (reset_session (example_env 10) example_config)
        (if Some example_practitioners = None then None
         else Some (uuid4_int (example_env 10) + getpid (example_env 10)))
        (Some example_practitioners)"
    by (simp add: example_env_def)
  have ctx: "context_entry example_worker_config = Some (FederatedLearningContext example_context)"
    and srv: "server_entry example_worker_config = Some ''server''"
    by (simp_all add: example_worker_config_def)
  have r: "fst (train (example_env 10) example_config (Some example_practitioners) idle_state) =
     Inr (Some 4252)"
    by (simp add: example_train_async)
  have t: "trace (snd (train (example_env 10) example_config (Some example_practitioners) idle_state)) =
     [ApplyGlobalConfig,
      Submit example_context [StartServer] (ServerConfig ''server''),
      Submit example_context [RunWorker, RunWorker] (KwargsList [''w0'', ''w1'']),
      Submit example_context [RunWorker] (KwargsList [''w2''])]"
    by (simp add: train_trace[OF wc ctx srv] idle_state_def worker_batch_def
        example_worker_config_def)
  have spec: "specified_worker_config example_worker_config"
    by (simp add: specified_worker_config_def example_worker_config_def)
  from train_server_submitted_first[OF wc, of idle_state, THEN conjunct1, rule_format, OF conjI, OF ctx srv]
    spec ctx srv r t
  show ?thesis by (intro conjI)
qed

text \<open>
  Claim C5. A synchronous call \<^verbatim>\<open>train(config, None)\<close> leaves both registries as they
  were on every path and never returns a task identifier; it returns \<open>None\<close> when the
  derived configuration is as the specification describes it: a context, a server
  configuration and non-empty batches of worker configurations.
\<close>

theorem train_synchronous:
  fixes st :: "('p, 'v, 'c) state"
  assumes wc: "wc = get_worker_config env (reset_session env config0) None None"
  shows "tasks (snd (train env config0 None st)) = tasks st \<and>
         task_results (snd (train env config0 None st)) = task_results st \<and>
         (\<forall>r. fst (train env config0 None st) = Inr r \<longrightarrow> r = None) \<and>
         (specified_worker_config wc \<longrightarrow> fst (train env config0 None st) = Inr None)"
proof -
  have wc': "wc = get_worker_config env (reset_session env config0)
      (if (None :: 'p practitioner set option) = None then None
       else Some (uuid4_int env + getpid env)) None"
    using wc by simp
  have "\<forall>r. fst (train env config0 None st) = Inr r \<longrightarrow> r = None"
    unfolding train_result[OF wc'] by (auto split: option.splits pyobj.splits if_splits)
  moreover have "specified_worker_config wc \<longrightarrow> fst (train env config0 None st) = Inr None"
    unfolding train_result[OF wc']
    by (auto simp: specified_worker_config_def split: option.splits pyobj.splits)
  ultimately show ?thesis using train_registry_sync[of env config0 st] by blast
qed

theorem train_synchronous_witness:
  "specified_worker_config example_worker_config \<and>
   fst (train (example_env 10) example_config None idle_state) = Inr None \<and>
   tasks (snd (train (example_env 10) example_config None idle_state)) = Map.empty \<and>
   task_results (snd (train (example_env 10) example_config None idle_state)) = Map.empty"
proof -
  have wc: "example_worker_config =
      get_worker_config (example_env 10) (reset_session (example_env 10) example_config) None None"
    by (simp add: example_env_def)
  have spec: "specified_worker_config example_worker_config"
    by (simp add: specified_worker_config_def example_worker_config_def)
  note inst = train_synchronous[OF wc, of idle_state]
  from inst spec
  have "fst (train (example_env 10) example_config None idle_state) = Inr None"
    by blast
  moreover from inst
  have "tasks (snd (train (example_env 10) example_config None idle_state)) = Map.empty"
    "task_results (snd (train (example_env 10) example_config None idle_state)) = Map.empty"
    by (simp_all add: idle_state_def)
  ultimately show ?thesis using spec by (intro conjI)
qed

text \<open>
  Claim C6. A completed \<^verbatim>\<open>start_server\<close> invocation returns a fragment that maps
  \<^verbatim>\<open>"performance"\<close> to the server's \<^verbatim>\<open>performance_stat\<close> and that has the key
  \<^verbatim>\<open>"sv"\<close> exactly when the server's algorithm object has the attribute
  \<^verbatim>\<open>shapley_values\<close>, then mapped to its value.
\<close>

theorem start_server_fragment:
  assumes "start_server context server_config = Inr res"
  shows "\<exists>ctor server.
           constructor server_config = Some ctor \<and> ctor context = Inr server \<and>
           start server = None \<and>
           dict_get res (KStr ''performance'') = Inr (performance_stat server) \<and>
           (KStr ''sv'' \<in> fst ` set res \<longleftrightarrow> shapley_values (algorithm server) \<noteq> None) \<and>
           (\<forall>sv. shapley_values (algorithm server) = Some sv \<longrightarrow>
                 dict_get res (KStr ''sv'') = Inr sv)"
  using assms
  by (auto simp: start_server_def dict_ior_def dict_get_set dict_set_def dict_get_def
      split: option.splits sum.splits)

theorem start_server_fragment_witness:
  "start_server example_context (example_server_config True) =
     Inr fragment_with_sv \<and>
   start_server example_context (example_server_config False) =
     Inr fragment_without_sv \<and>
   (\<exists>ctor server.
      constructor (example_server_config True) = Some ctor \<and>
      ctor example_context = Inr server \<and> start server = None \<and>
      dict_get fragment_with_sv
        (KStr ''performance'') = Inr (performance_stat server) \<and>
      (KStr ''sv'' \<in> fst ` set fragment_with_sv
         \<longleftrightarrow> shapley_values (algorithm server) \<noteq> None) \<and>
      (\<forall>sv. shapley_values (algorithm server) = Some sv \<longrightarrow>
         dict_get fragment_with_sv
           (KStr ''sv'') = Inr sv)) \<and>
   (\<exists>ctor server.
      constructor (example_server_config False) = Some ctor \<and>
      ctor example_context = Inr server \<and> start server = None \<and>
      dict_get fragment_without_sv (KStr ''performance'') =
        Inr (performance_stat server) \<and>
      (KStr ''sv'' \<in> fst ` set fragment_without_sv
         \<longleftrightarrow> shapley_values (algorithm server) \<noteq> None) \<and>
      (\<forall>sv. shapley_values (algorithm server) = Some sv \<longrightarrow>
         dict_get fragment_without_sv (KStr ''sv'') = Inr sv))"
proof -
  have with_sv: "start_server example_context (example_server_config True) =
     Inr fragment_with_sv"
    by (simp add: start_server_def example_server_config_def example_server_def
        dict_ior_def dict_set_def fragment_with_sv_def fragment_without_sv_def)
  have without_sv: "start_server example_context (example_server_config False) =
     Inr fragment_without_sv"
    by (simp add: start_server_def example_server_config_def example_server_def
        dict_ior_def dict_set_def fragment_with_sv_def fragment_without_sv_def)
  from start_server_fragment[OF with_sv] start_server_fragment[OF without_sv]
    with_sv without_sv
  show ?thesis by (intro conjI)
qed

text \<open>
  Claim C7. \<^verbatim>\<open>start_workers\<close> fails with \<^verbatim>\<open>AssertionError\<close>, submitting nothing, when
  the context is not a \<^verbatim>\<open>FederatedLearningContext\<close> or the list of worker configurations
  is empty. Otherwise it makes one submission to the context: as many \<^verbatim>\<open>run_worker\<close> as
  there are configurations, with the list of configurations as \<^verbatim>\<open>kwargs_list\<close>, so that
  its invocations are one \<^verbatim>\<open>run_worker\<close> per configuration, in order, each with that
  configuration as its arguments.
\<close>

theorem start_workers_batch:
  fixes st :: "('p, 'v, 'c) state"
  shows "(context = OtherObject \<or> worker_configs = [] \<longrightarrow>
            start_workers context worker_configs st = (Inl AssertionError, st)) \<and>
         (\<forall>c. context = FederatedLearningContext c \<and> worker_configs \<noteq> [] \<longrightarrow>
            (\<exists>funs.
               start_workers context worker_configs st =
                 (Inr (), st\<lparr>trace := trace st @ [Submit c funs (KwargsList worker_configs)]\<rparr>) \<and>
               funs = replicate (length worker_configs) RunWorker \<and>
               invocations (Submit c funs (KwargsList worker_configs)) =
                 map (\<lambda>worker_config. (RunWorker, worker_config)) worker_configs))"
proof (intro conjI impI allI)
  assume "context = OtherObject \<or> worker_configs = []"
  then show "start_workers context worker_configs st = (Inl AssertionError, st)"
    by (auto simp: start_workers_empty start_workers_other)
next
  fix c
  assume "context = FederatedLearningContext c \<and> worker_configs \<noteq> []"
  then have "start_workers context worker_configs st =
      (Inr (), st\<lparr>trace := trace st @ [worker_batch c worker_configs]\<rparr>)"
    by (simp add: start_workers_ok)
  moreover have "invocations (worker_batch c worker_configs) =
      map (\<lambda>worker_config. (RunWorker, worker_config)) worker_configs"
    by (simp add: worker_batch_def zip_map1 zip_same_conv_map)
  moreover have "map (\<lambda>worker_config. RunWorker) worker_configs =
      replicate (length worker_configs) RunWorker"
    by (simp add: map_replicate_const)
  ultimately show "\<exists>funs.
      start_workers context worker_configs st =
        (Inr (), st\<lparr>trace := trace st @ [Submit c funs (KwargsList worker_configs)]\<rparr>) \<and>
      funs = replicate (length worker_configs) RunWorker \<and>
      invocations (Submit c funs (KwargsList worker_configs)) =
        map (\<lambda>worker_config. (RunWorker, worker_config)) worker_configs"
    unfolding worker_batch_def by simp
qed

theorem start_workers_batch_witness:
  "start_workers (FederatedLearningContext example_context) [''w0'', ''w1''] idle_state =
     (Inr (), idle_state\<lparr>trace :=
        [Submit example_context [RunWorker, RunWorker] (KwargsList [''w0'', ''w1''])]\<rparr>) \<and>
   invocations (Submit example_context [RunWorker, RunWorker] (KwargsList [''w0'', ''w1''])) =
     [(RunWorker, ''w0''), (RunWorker, ''w1'')] \<and>
   start_workers OtherObject [''w0'', ''w1''] idle_state = (Inl AssertionError, idle_state) \<and>
   start_workers (FederatedLearningContext example_context) [] idle_state =
     (Inl AssertionError, idle_state)"
proof -
  note a = start_workers_batch[of "FederatedLearningContext example_context" "[''w0'', ''w1'']"
      idle_state, THEN conjunct2, rule_format, of example_context]
  note b = start_workers_batch[of OtherObject "[''w0'', ''w1'']" idle_state, THEN conjunct1]
  note c = start_workers_batch[of "FederatedLearningContext example_context" "[]" idle_state,
      THEN conjunct1]
  have t: "trace idle_state = []"
    by (simp add: idle_state_def)
  from a have e: "start_workers (FederatedLearningContext example_context) [''w0'', ''w1''] idle_state =
     (Inr (), idle_state\<lparr>trace :=
        [Submit example_context [RunWorker, RunWorker] (KwargsList [''w0'', ''w1''])]\<rparr>)"
    by (simp add: t numeral_2_eq_2)
  from a have "invocations (Submit example_context [RunWorker, RunWorker] (KwargsList [''w0'', ''w1''])) =
     [(RunWorker, ''w0''), (RunWorker, ''w1'')]"
    by (simp add: numeral_2_eq_2)
  with e b c show ?thesis by simp
qed

text \<open>
  Claim C8. Merging the fragments of a poll into the accumulated result of a task is
  set-union-by-key with last-writer-wins. After the results \<open>rs\<close> of a poll, the
  stored accumulator holds, at every key, the value of the last fragment of \<open>rs\<close> that
  has the key, and the value it held before the poll when no fragment has it; its keys are
  the keys it had together with the keys of the fragments. After one more fragment, a key
  of that fragment holds the fragment's value and every other key holds what it held
  before. No result and a \<^verbatim>\<open>None\<close> result change nothing, and the other tasks' entries
  are untouched. Merging \<^verbatim>\<open>{"a": 1}\<close> and then \<^verbatim>\<open>{"a": 2, "b": 3}\<close> into an empty
  accumulator gives \<^verbatim>\<open>{"a": 2, "b": 3}\<close>, and into \<^verbatim>\<open>{"x": 1}\<close> it gives
  \<^verbatim>\<open>{"x": 1, "a": 2, "b": 3}\<close>.
\<close>

theorem merge_last_writer_wins:
  fixes tr :: "int \<rightharpoonup> ('p, 'v) dict"
  assumes reg: "tr task_id = Some acc0"
    and wf: "\<forall>f \<in> set (non_null rs). wf_dict f"
    and wfl: "wf_dict later"
  shows "(\<exists>earlier merged.
            merge_results rs task_id tr = Inr (tr(task_id \<mapsto> earlier)) \<and>
            merge_results (rs @ [Some later]) task_id tr = Inr (tr(task_id \<mapsto> merged)) \<and>
            (\<forall>k. dict_get earlier k =
                 (case last_writer k (non_null rs) of
                    None \<Rightarrow> dict_get acc0 k
                  | Some f \<Rightarrow> dict_get f k)) \<and>
            fst ` set earlier = fst ` set acc0 \<union> (\<Union>f \<in> set (non_null rs). fst ` set f) \<and>
            (\<forall>k. dict_get merged k =
                 (if k \<in> fst ` set later then dict_get later k else dict_get earlier k)) \<and>
            fst ` set merged = fst ` set earlier \<union> fst ` set later) \<and>
         merge_results [] task_id tr = Inr tr \<and>
         merge_results (rs @ [None]) task_id tr = merge_results rs task_id tr \<and>
         merge_results [Some fragment_a, Some fragment_ab] 7 [7 \<mapsto> []] =
           Inr [7 \<mapsto> fragment_ab] \<and>
         merge_results [Some fragment_a, None, Some fragment_ab] 7 [7 \<mapsto> fragment_x] =
           Inr [7 \<mapsto> fragment_x @ fragment_ab]"
proof (intro conjI)
  let ?earlier = "foldl dict_ior acc0 (non_null rs)"
  have e: "merge_results rs task_id tr = Inr (tr(task_id \<mapsto> ?earlier))"
    using reg by (rule merge_results_registered)
  have m: "merge_results (rs @ [Some later]) task_id tr =
      Inr (tr(task_id \<mapsto> dict_ior ?earlier later))"
    using reg by (simp add: merge_results_registered[where acc = acc0] non_null_append)
  have ek: "\<forall>k. dict_get ?earlier k =
      (case last_writer k (non_null rs) of None \<Rightarrow> dict_get acc0 k | Some f \<Rightarrow> dict_get f k)"
    using dict_get_foldl_ior[OF wf] by blast
  have ekeys: "fst ` set ?earlier = fst ` set acc0 \<union> (\<Union>f \<in> set (non_null rs). fst ` set f)"
    by (rule keys_foldl_ior)
  have mk: "\<forall>k. dict_get (dict_ior ?earlier later) k =
      (if k \<in> fst ` set later then dict_get later k else dict_get ?earlier k)"
    by (simp add: dict_get_ior[OF wfl])
  have mkeys: "fst ` set (dict_ior ?earlier later) = fst ` set ?earlier \<union> fst ` set later"
    by (rule keys_dict_ior)
  from e m ek ekeys mk mkeys
  show "\<exists>earlier merged.
            merge_results rs task_id tr = Inr (tr(task_id \<mapsto> earlier)) \<and>
            merge_results (rs @ [Some later]) task_id tr = Inr (tr(task_id \<mapsto> merged)) \<and>
            (\<forall>k. dict_get earlier k =
                 (case last_writer k (non_null rs) of
                    None \<Rightarrow> dict_get acc0 k
                  | Some f \<Rightarrow> dict_get f k)) \<and>
            fst ` set earlier = fst ` set acc0 \<union> (\<Union>f \<in> set (non_null rs). fst ` set f) \<and>
            (\<forall>k. dict_get merged k =
                 (if k \<in> fst ` set later then dict_get later k else dict_get earlier k)) \<and>
            fst ` set merged = fst ` set earlier \<union> fst ` set later"
    by blast
next
  show "merge_results [] task_id tr = Inr tr" by simp
next
  show "merge_results (rs @ [None]) task_id tr = merge_results rs task_id tr"
    using reg by (simp add: merge_results_registered[where acc = acc0] non_null_append)
next
  show "merge_results [Some fragment_a, Some fragment_ab] 7 [7 \<mapsto> []] =
          Inr [7 \<mapsto> fragment_ab]"
    by (simp add: fragment_a_def fragment_ab_def dict_ior_def dict_set_def)
next
  show "merge_results [Some fragment_a, None, Some fragment_ab] 7 [7 \<mapsto> fragment_x] =
          Inr [7 \<mapsto> fragment_x @ fragment_ab]"
    by (simp add: fragment_a_def fragment_ab_def fragment_x_def dict_ior_def dict_set_def)
qed

theorem merge_last_writer_wins_witness:
  "[7 \<mapsto> fragment_x] (7::int) = Some fragment_x \<and>
   non_null [Some fragment_a, None] = [fragment_a] \<and>
   wf_dict fragment_a \<and> wf_dict fragment_ab \<and>
   (\<exists>earlier merged.
      merge_results [Some fragment_a, None] 7 [7 \<mapsto> fragment_x] = Inr [7 \<mapsto> earlier] \<and>
      merge_results ([Some fragment_a, None] @ [Some fragment_ab]) 7 [7 \<mapsto> fragment_x] =
        Inr [7 \<mapsto> merged] \<and>
      dict_get earlier (KStr ''x'') = Inr (Num 1) \<and>
      dict_get earlier (KStr ''a'') = Inr (Num 1) \<and>
      dict_get earlier (KStr ''b'') = Inl KeyError \<and>
      dict_get merged (KStr ''x'') = Inr (Num 1) \<and>
      dict_get merged (KStr ''a'') = Inr (Num 2) \<and>
      dict_get merged (KStr ''b'') = Inr (Num 3) \<and>
      dict_get merged (KStr ''c'') = Inl KeyError \<and>
      fst ` set merged = {KStr ''x'', KStr ''a'', KStr ''b''})"
proof -
  have r: "[7 \<mapsto> fragment_x] (7::int) = Some fragment_x"
    by simp
  have nn: "non_null [Some fragment_a, None] = [fragment_a]"
    by simp
  have wa: "wf_dict fragment_a" and w: "wf_dict fragment_ab"
    by (simp_all add: wf_dict_def fragment_a_def fragment_ab_def)
  from wa have wfs: "\<forall>f \<in> set (non_null [Some fragment_a, None]). wf_dict f"
    by simp
  from merge_last_writer_wins[where tr = "[7 \<mapsto> fragment_x]" and task_id = 7
      and rs = "[Some fragment_a, None]", OF r wfs w, THEN conjunct1, simplified fun_upd_upd]
  obtain earlier merged
    where e: "merge_results [Some fragment_a, None] 7 [7 \<mapsto> fragment_x] = Inr [7 \<mapsto> earlier]"
      and m: "merge_results ([Some fragment_a, None] @ [Some fragment_ab]) 7 [7 \<mapsto> fragment_x] =
                Inr [7 \<mapsto> merged]"
      and ek: "\<forall>k. dict_get earlier k =
                (case last_writer k (non_null [Some fragment_a, None]) of
                   None \<Rightarrow> dict_get fragment_x k
                 | Some f \<Rightarrow> dict_get f k)"
      and ekeys: "fst ` set earlier =
                fst ` set fragment_x \<union> (\<Union>f \<in> set (non_null [Some fragment_a, None]). fst ` set f)"
      and k: "\<forall>k. dict_get merged k =
                (if k \<in> fst ` set fragment_ab then dict_get fragment_ab k else dict_get earlier k)"
      and mkeys: "fst ` set merged = fst ` set earlier \<union> fst ` set fragment_ab"
    by (elim exE conjE) (rule that, assumption+)
  have e1: "dict_get earlier (KStr ''x'') = Inr (Num 1)"
    "dict_get earlier (KStr ''a'') = Inr (Num 1)"
    "dict_get earlier (KStr ''b'') = Inl KeyError"
    "dict_get earlier (KStr ''c'') = Inl KeyError"
    by (simp_all only: ek[rule_format])
       (simp_all add: last_writer_def fragment_a_def fragment_x_def dict_get_def)
  have ab: "dict_get fragment_ab (KStr ''a'') = Inr (Num 2)"
    "dict_get fragment_ab (KStr ''b'') = Inr (Num 3)"
    "fst ` set fragment_ab = {KStr ''a'', KStr ''b''}"
    by (simp_all add: fragment_ab_def dict_get_def)
  have m1: "dict_get merged (KStr ''x'') = Inr (Num 1)"
    "dict_get merged (KStr ''a'') = Inr (Num 2)"
    "dict_get merged (KStr ''b'') = Inr (Num 3)"
    "dict_get merged (KStr ''c'') = Inl KeyError"
    by (simp_all only: k[rule_format])
       (simp_all add: e1 ab)
  have keys: "fst ` set merged = {KStr ''x'', KStr ''a'', KStr ''b''}"
    by (simp add: mkeys ekeys) (auto simp: fragment_x_def fragment_a_def fragment_ab_def)
  have "\<exists>earlier merged.
      merge_results [Some fragment_a, None] 7 [7 \<mapsto> fragment_x] = Inr [7 \<mapsto> earlier] \<and>
      merge_results ([Some fragment_a, None] @ [Some fragment_ab]) 7 [7 \<mapsto> fragment_x] =
        Inr [7 \<mapsto> merged] \<and>
      dict_get earlier (KStr ''x'') = Inr (Num 1) \<and>
      dict_get earlier (KStr ''a'') = Inr (Num 1) \<and>
      dict_get earlier (KStr ''b'') = Inl KeyError \<and>
      dict_get merged (KStr ''x'') = Inr (Num 1) \<and>
      dict_get merged (KStr ''a'') = Inr (Num 2) \<and>
      dict_get merged (KStr ''b'') = Inr (Num 3) \<and>
      dict_get merged (KStr ''c'') = Inl KeyError \<and>
      fst ` set merged = {KStr ''x'', KStr ''a'', KStr ''b''}"
  proof (intro exI conjI)
    show "merge_results [Some fragment_a, None] 7 [7 \<mapsto> fragment_x] = Inr [7 \<mapsto> earlier]"
      by (rule e)
    show "merge_results ([Some fragment_a, None] @ [Some fragment_ab]) 7 [7 \<mapsto> fragment_x] =
        Inr [7 \<mapsto> merged]"
      by (rule m)
  qed (rule e1 m1 keys)+
  with r nn wa w show ?thesis by (intro conjI)
qed

text \<open>
  Claim C9. Whatever the recorded \<^verbatim>\<open>worker_number\<close> and the number of recorded
  participant identifiers are, with \<open>m\<close> the smaller of the two: if every round of
  the accumulated \<^verbatim>\<open>sv\<close> table has the slots below \<open>m\<close>, a complete poll returns
  statistics whose \<^verbatim>\<open>sv\<close> table has the same rounds, and in every round exactly the
  \<open>m\<close> smallest identifiers as keys, the identifier at position \<open>slot\<close> holding the
  value of worker slot \<open>slot\<close>. Identifiers and slots from \<open>m\<close> on give neither an
  entry nor an error.
\<close>

theorem sv_remap_truncates:
  fixes st :: "('p::linorder, 'v, 'c) state"
  assumes reg: "tasks st task_id = Some task"
    and res: "task_results st task_id = Some acc0"
    and complete: "\<not> not_done reply"
    and wf: "wf_dict acc0"
    and sv: "dict_get (foldl dict_ior acc0 (non_null (map snd (results reply)))) (KStr ''sv'') =
               Inr (Dict original)"
    and wfo: "wf_dict original"
    and present:
      "\<forall>(round, tmp) \<in> set original.
         \<forall>slot < min (card (practitioner_ids task)) (nat (worker_number (task_config task))).
           \<exists>x. subscript tmp (KInt (int slot)) = Inr x"
  shows "\<exists>stats remapped.
           fst (get_training_result reply task_id timeout st) = Inr (Some stats) \<and>
           dict_get stats (KStr ''sv'') = Inr (Dict remapped) \<and>
           map fst remapped = map fst original \<and>
           (\<forall>(round, tmp) \<in> set original.
              \<exists>inner. dict_get remapped round = Inr (Dict inner) \<and>
                 map fst inner =
                   map KId (take (min (card (practitioner_ids task))
                                      (nat (worker_number (task_config task))))
                              (sorted_py (practitioner_ids task))) \<and>
                 (\<forall>slot < min (card (practitioner_ids task))
                                 (nat (worker_number (task_config task))).
                    subscript (Dict inner) (KId (sorted_py (practitioner_ids task) ! slot)) =
                    subscript tmp (KInt (int slot))))"
proof -
  let ?acc = "foldl dict_ior acc0 (non_null (map snd (results reply)))"
  let ?pairs = "zip (sorted_py (practitioner_ids task))
                    (range_py (worker_number (task_config task)))"
  have wfa: "wf_dict ?acc" using wf by (rule wf_foldl_ior)
  from remap_rounds_truncates[OF wfo present] obtain remapped
    where rr: "remap_rounds original ?pairs [] = Inr remapped"
      and keys: "map fst remapped = map fst original"
      and rounds: "\<forall>(round, tmp) \<in> set original.
              \<exists>inner. dict_get remapped round = Inr (Dict inner) \<and>
                 map fst inner =
                   map KId (take (min (card (practitioner_ids task))
                                      (nat (worker_number (task_config task))))
                              (sorted_py (practitioner_ids task))) \<and>
                 (\<forall>slot < min (card (practitioner_ids task))
                                 (nat (worker_number (task_config task))).
                    subscript (Dict inner) (KId (sorted_py (practitioner_ids task) ! slot)) =
                    subscript tmp (KInt (int slot)))"
    by blast
  have "\<exists>rounds sv_dict. items v = Inr rounds \<and> remap_rounds rounds ?pairs [] = Inr sv_dict"
    if "(KStr ''sv'', v) \<in> set ?acc" for v
  proof -
    from dict_get_unique[OF wfa sv that] have "v = Dict original" .
    with rr show ?thesis by (simp add: items_def)
  qed
  then have "\<exists>stats. post_process ?acc ?pairs [] = Inr stats"
    by (intro post_process_succeeds) blast
  then obtain stats where pp: "post_process ?acc ?pairs [] = Inr stats" ..
  from post_process_sv[OF pp wfa dict_get_mem[OF sv]] rr
  have "dict_get stats (KStr ''sv'') = Inr (Dict remapped)"
    by (simp add: items_def dict_get_def)
  moreover have "fst (get_training_result reply task_id timeout st) = Inr (Some stats)"
    by (simp add: get_training_result_complete[OF reg res complete] pp)
  ultimately show ?thesis using keys rounds by blast
qed

theorem sv_remap_truncates_witness:
  "tasks mismatch_state 7 = Some mismatch_task \<and>
   task_results mismatch_state 7 = Some [] \<and>
   \<not> not_done short_reply \<and>
   worker_number (task_config mismatch_task) \<noteq> int (card (practitioner_ids mismatch_task)) \<and>
   min (card (practitioner_ids mismatch_task)) (nat (worker_number (task_config mismatch_task))) = 2 \<and>
   dict_get (foldl dict_ior [] (non_null (map snd (results short_reply)))) (KStr ''sv'') =
     Inr (Dict short_sv) \<and>
   wf_dict short_sv \<and>
   (\<exists>stats remapped.
      fst (get_training_result short_reply 7 None mismatch_state) = Inr (Some stats) \<and>
      dict_get stats (KStr ''sv'') = Inr (Dict remapped) \<and>
      map fst remapped = [KInt 0] \<and>
      (\<forall>(round, tmp) \<in> set short_sv.
         \<exists>inner. dict_get remapped round = Inr (Dict inner) \<and>
            map fst inner = [KId ''p1'', KId ''p2''] \<and>
            (\<forall>slot < 2. subscript (Dict inner) (KId ([''p1'', ''p2'', ''p3''] ! slot)) =
                          subscript tmp (KInt (int slot)))))"
proof -
  have reg: "tasks mismatch_state 7 = Some mismatch_task"
    and res: "task_results mismatch_state 7 = Some []"
    by (simp_all add: mismatch_state_def)
  have complete: "\<not> not_done short_reply"
    by (simp add: short_reply_def)
  have wf: "wf_dict ([] :: (string, real) dict)"
    by (simp add: wf_dict_def)
  have sv: "dict_get (foldl dict_ior [] (non_null (map snd (results short_reply)))) (KStr ''sv'') =
              Inr (Dict short_sv)"
    by (simp add: short_reply_def short_fragment_def short_sv_def dict_ior_def dict_set_def
        dict_get_def)
  have wfo: "wf_dict short_sv"
    by (simp add: wf_dict_def short_sv_def)
  have ne: "worker_number (task_config mismatch_task) \<noteq> int (card (practitioner_ids mismatch_task))"
    by (simp add: mismatch_task_def)
  have m: "min (card (practitioner_ids mismatch_task))
               (nat (worker_number (task_config mismatch_task))) = 2"
    by (simp add: mismatch_task_def)
  have sorted: "sorted_py (practitioner_ids mismatch_task) = [''p1'', ''p2'', ''p3'']"
    by (simp add: mismatch_task_def sorted_py_def)
  have present: "\<forall>(round, tmp) \<in> set short_sv. \<forall>slot < 2. \<exists>x. subscript tmp (KInt (int slot)) = Inr x"
    by (simp add: short_sv_def subscript_def dict_get_def less_Suc_eq numeral_2_eq_2)
  from present have present': "\<forall>(round, tmp) \<in> set short_sv.
         \<forall>slot < min (card (practitioner_ids mismatch_task))
                       (nat (worker_number (task_config mismatch_task))).
           \<exists>x. subscript tmp (KInt (int slot)) = Inr x"
    by (simp only: m)
  have keys: "map fst short_sv = [KInt 0]"
    by (simp add: short_sv_def)
  from sv_remap_truncates[OF reg res complete wf sv wfo present', of None]
  have "\<exists>stats remapped.
      fst (get_training_result short_reply 7 None mismatch_state) = Inr (Some stats) \<and>
      dict_get stats (KStr ''sv'') = Inr (Dict remapped) \<and>
      map fst remapped = [KInt 0] \<and>
      (\<forall>(round, tmp) \<in> set short_sv.
         \<exists>inner. dict_get remapped round = Inr (Dict inner) \<and>
            map fst inner = [KId ''p1'', KId ''p2''] \<and>
            (\<forall>slot < 2. subscript (Dict inner) (KId ([''p1'', ''p2'', ''p3''] ! slot)) =
                          subscript tmp (KInt (int slot))))"
    by (simp only: m sorted keys) (simp add: numeral_2_eq_2)
  with reg res complete ne m sv wfo show ?thesis by (intro conjI)
qed

text \<open>
  Claim C10. On the completion path the task leaves \<^verbatim>\<open>tasks\<close> before the
  post-processing and \<^verbatim>\<open>task_results\<close> only after it: after a complete poll the task
  is not in \<^verbatim>\<open>tasks\<close>; if the post-processing raises, the call raises that error and
  the accumulated fragments are still in \<^verbatim>\<open>task_results\<close>; if it does not, the
  statistics are returned and the entry of \<^verbatim>\<open>task_results\<close> is gone.
\<close>

theorem cleanup_not_atomic:
  fixes st :: "('p::linorder, 'v, 'c) state"
  assumes reg: "tasks st task_id = Some task"
    and res: "task_results st task_id = Some acc0"
    and complete: "\<not> not_done reply"
  shows "tasks (snd (get_training_result reply task_id timeout st)) task_id = None \<and>
         (case post_process (foldl dict_ior acc0 (non_null (map snd (results reply))))
                 (zip (sorted_py (practitioner_ids task))
                      (range_py (worker_number (task_config task)))) [] of
            Inl e \<Rightarrow>
              fst (get_training_result reply task_id timeout st) = Inl e \<and>
              task_results (snd (get_training_result reply task_id timeout st)) task_id =
                Some (foldl dict_ior acc0 (non_null (map snd (results reply))))
          | Inr stats \<Rightarrow>
              fst (get_training_result reply task_id timeout st) = Inr (Some stats) \<and>
              task_results (snd (get_training_result reply task_id timeout st)) task_id = None)"
proof -
  let ?acc = "foldl dict_ior acc0 (non_null (map snd (results reply)))"
  let ?pairs = "zip (sorted_py (practitioner_ids task))
                    (range_py (worker_number (task_config task)))"
  let ?r = "get_training_result reply task_id timeout st"
  note run = get_training_result_complete[OF reg res complete, of timeout]
  show ?thesis
  proof (cases "post_process ?acc ?pairs []")
    case (Inl e)
    then have "fst ?r = Inl e" and "tasks (snd ?r) task_id = None"
      and "task_results (snd ?r) task_id = Some ?acc"
      by (simp_all add: run)
    with Inl show ?thesis by simp
  next
    case (Inr stats)
    then have "fst ?r = Inr (Some stats)" and "tasks (snd ?r) task_id = None"
      and "task_results (snd ?r) task_id = None"
      by (simp_all add: run)
    with Inr show ?thesis by simp
  qed
qed

theorem cleanup_not_atomic_witness:
  "tasks example_state 7 = Some example_task \<and>
   task_results example_state 7 = Some [] \<and>
   \<not> not_done short_reply \<and>
   fst (get_training_result short_reply 7 None example_state) = Inl KeyError \<and>
   tasks (snd (get_training_result short_reply 7 None example_state)) 7 = None \<and>
   task_results (snd (get_training_result short_reply 7 None example_state)) 7 =
     Some short_fragment"
proof -
  have reg: "tasks example_state 7 = Some example_task"
    and res: "task_results example_state 7 = Some []"
    by (simp_all add: example_state_def)
  have complete: "\<not> not_done short_reply"
    by (simp add: short_reply_def)
  have acc: "foldl dict_ior [] (non_null (map snd (results short_reply))) = short_fragment"
    by (simp add: short_reply_def short_fragment_def short_sv_def dict_ior_def dict_set_def)
  have pp: "post_process short_fragment
              (zip (sorted_py (practitioner_ids example_task))
                   (range_py (worker_number (task_config example_task)))) [] = Inl KeyError"
    by (simp add: short_fragment_def short_sv_def example_task_def sorted_py_def range_py_def upt_rec
        items_def subscript_def dict_get_def dict_set_def)
  from cleanup_not_atomic[OF reg res complete, of None] reg res complete
  show ?thesis by (simp add: acc pp)
qed

end
